theory Spec2Isabelle
  imports Complex_Main "HOL-Library.Multiset"
begin

section \<open>Outcomes and the random source\<close>

text \<open>
  The optimizer of \<^verbatim>\<open>function_maximize.py\<close> is embedded function by function.
  A Python call either returns a value or raises; the exceptions the module can raise
  are the constructors of \<open>error\<close> (a \<open>ValueError\<close> carries its message).

  Python's \<^verbatim>\<open>random\<close> module is modelled by an explicit tape of raw words that the
  functions consume from the front, one word per call of \<^verbatim>\<open>uniform\<close> or
  \<^verbatim>\<open>randint\<close>. The tape is finite, so a run that needs more draws than the tape
  holds ends in \<open>Starved\<close>: this outcome is not a Python exception, it says that the
  supplied prefix of the random stream was too short, and a loop that never ends is
  \<open>Starved\<close> on every tape.

  Coordinates and fitness values are \<open>real\<close>: the floating-point rounding of numpy is
  not modelled, comparisons, \<open>min\<close> and \<open>max\<close> are exact.
\<close>

datatype error =
    ValueError string
  | TypeError
  | IndexError
  | ZeroDivisionError
  | AttributeError

datatype 'a result = Ok 'a | Raises error | Starved

type_synonym rng = "nat list"

fun rbind :: "'a result \<Rightarrow> ('a \<Rightarrow> 'b result) \<Rightarrow> 'b result" where
  "rbind (Ok x) f = f x"
| "rbind (Raises e) f = Raises e"
| "rbind Starved f = Starved"

text \<open>\<^verbatim>\<open>xs[i]\<close> for a non-negative index: out of range raises \<open>IndexError\<close>.\<close>

definition list_get :: "'a list \<Rightarrow> nat \<Rightarrow> 'a result" where
  "list_get xs i = (if i < length xs then Ok (xs ! i) else Raises IndexError)"

text \<open>
  \<^verbatim>\<open>random()\<close> returns a multiple of \<open>2^-53\<close> in \<open>[0, 1)\<close>; \<^verbatim>\<open>uniform(a, b)\<close> is
  \<^verbatim>\<open>a + (b - a) * random()\<close>; \<^verbatim>\<open>randint(a, b)\<close> raises \<open>ValueError\<close> on an empty
  range, before it draws, and otherwise returns an integer of \<open>[a, b]\<close>, both ends
  included, every one of them for some word.
\<close>

definition random_unit :: "nat \<Rightarrow> real" where
  "random_unit w = real (w mod 9007199254740992) / 9007199254740992"

fun uniform :: "real \<Rightarrow> real \<Rightarrow> rng \<Rightarrow> (real \<times> rng) result" where
  "uniform a b [] = Starved"
| "uniform a b (w # rng) = Ok (a + (b - a) * random_unit w, rng)"

fun randint :: "int \<Rightarrow> int \<Rightarrow> rng \<Rightarrow> (int \<times> rng) result" where
  "randint a b rng =
     (if b < a then Raises (ValueError ''empty range for randrange()'')
      else case rng of
        [] \<Rightarrow> Starved
      | w # rng' \<Rightarrow> Ok (a + int (w mod nat (b - a + 1)), rng'))"

section \<open>Weighted choice\<close>

text \<open>
  \<^verbatim>\<open>
  def weighted_choice(choices, weights):
      normalized_weights = np.array([weight for weight in weights]) / np.sum(weights)
      threshold = uniform(0, 1)
      total = 1
      for index, normalized_weight in enumerate(normalized_weights):
          total -= normalized_weight
          if total < threshold:
              return choices[index]
  \<close>
  The running \<^verbatim>\<open>total\<close> is \<open>tot\<close>. Falling off the end of the loop returns Python's
  \<open>None\<close>, so the value is an option. \<open>weighted_choice_at\<close> is the function for a
  given threshold. The division is that of the reals: for weights whose sum is zero
  numpy yields \<open>nan\<close> or \<open>inf\<close>, which the model does not represent, and the theorems
  below are about weights with a positive sum.
\<close>

fun weighted_choice_loop ::
  "'a list \<Rightarrow> real list \<Rightarrow> nat \<Rightarrow> real \<Rightarrow> real \<Rightarrow> 'a option result" where
  "weighted_choice_loop choices [] index tot threshold = Ok None"
| "weighted_choice_loop choices (normalized_weight # rest) index tot threshold =
     (if tot - normalized_weight < threshold
      then rbind (list_get choices index) (\<lambda>c. Ok (Some c))
      else weighted_choice_loop choices rest (Suc index) (tot - normalized_weight) threshold)"

definition normalized_weights :: "real list \<Rightarrow> real list" where
  "normalized_weights weights = map (\<lambda>weight. weight / sum_list weights) weights"

definition weighted_choice_at :: "'a list \<Rightarrow> real list \<Rightarrow> real \<Rightarrow> 'a option result" where
  "weighted_choice_at choices weights threshold =
     weighted_choice_loop choices (normalized_weights weights) 0 1 threshold"

definition weighted_choice :: "'a list \<Rightarrow> real list \<Rightarrow> rng \<Rightarrow> ('a option \<times> rng) result" where
  "weighted_choice choices weights rng =
     rbind (uniform 0 1 rng) (\<lambda>(threshold, rng').
       rbind (weighted_choice_at choices weights threshold) (\<lambda>c. Ok (c, rng')))"

section \<open>Objective functions\<close>

text \<open>
  The objective is a deterministic Python callable: \<open>call\<close> gives, for an argument
  tuple, the value it returns or the exception it raises (a plain function raises
  \<open>TypeError\<close> on a tuple of the wrong length). \<open>co_argcount\<close> is what
  \<^verbatim>\<open>objective_function.__code__.co_argcount\<close> reads: the number of named positional
  parameters, and \<open>None\<close> for an object without that attribute (such as the default
  \<^verbatim>\<open>objective_function=None\<close>).
\<close>

record objective =
  co_argcount :: "nat option"
  call :: "real list \<Rightarrow> real result"

section \<open>Points\<close>

text \<open>
  \<open>associated_population\<close> is a reference in the source and the identity of the
  population here. A point copies \<open>boundaries\<close> and \<open>mutation_range\<close> from its
  population when it is created, so \<open>Point_init\<close> takes them with the reference.
\<close>

record Point =
  associated_population :: "nat option"
  boundaries :: "(real \<times> real) list"
  mutation_range :: real
  coordinates :: "real list"
  index :: int
  fitness :: real
  diversity :: real
  fitness_rank :: int
  diversity_rank :: int

text \<open>
  \<^verbatim>\<open>[uniform(self.boundaries[dimension][0], self.boundaries[dimension][1])
     for dimension in range(dimensions)]\<close>,
  from dimension \<open>d\<close> on, with \<open>n\<close> dimensions left.
\<close>

fun draw_coordinates ::
  "(real \<times> real) list \<Rightarrow> nat \<Rightarrow> nat \<Rightarrow> rng \<Rightarrow> (real list \<times> rng) result" where
  "draw_coordinates bs d 0 rng = Ok ([], rng)"
| "draw_coordinates bs d (Suc n) rng =
     (case list_get bs d of
        Ok b \<Rightarrow>
          (case uniform (fst b) (snd b) rng of
             Ok (c, rng') \<Rightarrow>
               (case draw_coordinates bs (Suc d) n rng' of
                  Ok (cs, rng'') \<Rightarrow> Ok (c # cs, rng'')
                | Raises e \<Rightarrow> Raises e
                | Starved \<Rightarrow> Starved)
           | Raises e \<Rightarrow> Raises e
           | Starved \<Rightarrow> Starved)
      | Raises e \<Rightarrow> Raises e
      | Starved \<Rightarrow> Starved)"

definition Point_init ::
  "(nat \<times> (real \<times> real) list \<times> real) option \<Rightarrow> nat \<Rightarrow> rng \<Rightarrow> (Point \<times> rng) result" where
  "Point_init population dimensions rng =
     (let (assoc, bs, mr) =
            (case population of
               None \<Rightarrow> (None, replicate dimensions (0, 100), 5)
             | Some (pid, pbs, pmr) \<Rightarrow> (Some pid, pbs, pmr))
      in rbind (draw_coordinates bs 0 dimensions rng) (\<lambda>(cs, rng').
           Ok (\<lparr>associated_population = assoc, boundaries = bs, mutation_range = mr,
                coordinates = cs, index = - 1, fitness = 0, diversity = 0,
                fitness_rank = - 1, diversity_rank = - 1\<rparr>, rng')))"

text \<open>
  \<^verbatim>\<open>
  def evaluate_fitness(self, eval_function=None):
      try:
          self.fitness = eval_function(*self.coordinates)
          return self.fitness
      except TypeError:
          print("function passed is invalid.")
          raise
  \<close>
\<close>

definition evaluate_fitness :: "Point \<Rightarrow> objective \<Rightarrow> Point result" where
  "evaluate_fitness p eval_function =
     rbind (call eval_function (coordinates p)) (\<lambda>v. Ok (p\<lparr>fitness := v\<rparr>))"

text \<open>
  \<^verbatim>\<open>
  def mutate(self):
      index = randint(0, np.size(self.coordinates) - 1)
      self.coordinates[index] += uniform(-self.mutation_range, self.mutation_range)
      # Ensure the point doesn't mutate out of range!
      self.coordinates[index] = min(self.boundaries[index][0], self.coordinates[index])
      self.coordinates[index] = max(self.boundaries[index][1], self.coordinates[index])
  \<close>
  \<open>mutate_draws\<close> gives the dimension drawn and the coordinate after the second line
  (the perturbed value), \<open>mutate\<close> the point after the call.
\<close>

definition mutate_draws :: "Point \<Rightarrow> rng \<Rightarrow> ((nat \<times> real) \<times> rng) result" where
  "mutate_draws p rng =
     rbind (randint 0 (int (length (coordinates p)) - 1) rng) (\<lambda>(i, rng1).
       rbind (uniform (- mutation_range p) (mutation_range p) rng1) (\<lambda>(delta, rng2).
         Ok ((nat i, coordinates p ! nat i + delta), rng2)))"

definition mutate :: "Point \<Rightarrow> rng \<Rightarrow> (Point \<times> rng) result" where
  "mutate p rng =
     rbind (mutate_draws p rng) (\<lambda>((i, x), rng2).
       rbind (list_get (boundaries p) i) (\<lambda>b.
         Ok (p\<lparr>coordinates := (coordinates p)[i := max (snd b) (min (fst b) x)]\<rparr>, rng2)))"

text \<open>The bounds invariant of a candidate: every coordinate lies within its pair.\<close>

definition in_bounds :: "Point \<Rightarrow> bool" where
  "in_bounds p \<longleftrightarrow>
     length (coordinates p) \<le> length (boundaries p) \<and>
     list_all (\<lambda>(c, b). fst b \<le> c \<and> c \<le> snd b) (zip (coordinates p) (boundaries p))"

definition ordered_bounds :: "(real \<times> real) list \<Rightarrow> bool" where
  "ordered_bounds bs = list_all (\<lambda>b. fst b \<le> snd b) bs"


section \<open>Populations\<close>

text \<open>
  The fields of \<^verbatim>\<open>Population\<close>, with \<open>ident\<close> for the identity of the object
  (what \<open>associated_population\<close> of its points refers to) and the names
  \<open>size_pop\<close>, \<open>boundaries_pop\<close> and \<open>mutation_range_pop\<close> for \<^verbatim>\<open>size\<close>,
  \<^verbatim>\<open>boundaries\<close> and \<^verbatim>\<open>mutation_range\<close>. \<open>population_size\<close> is a natural number.
  \<open>evaluations\<close> is not a field of the source: it records, in order, the coordinate
  vectors on which the methods of the population have called the objective.
\<close>

record Population =
  ident :: nat
  points :: "Point list"
  size_pop :: nat
  objective_function :: objective
  elite_population_size :: nat
  mutation_probability :: real
  mutation_range_pop :: real
  boundaries_pop :: "(real \<times> real) list"
  verbose :: int
  evaluated_fitness_ranks :: bool
  evaluated_diversity_ranks :: bool
  mean_fitness :: real
  mean_coordinates :: "real list"
  mean_diversity :: real
  num_iterations :: nat
  multiprocessing :: bool
  num_dimensions :: nat
  evaluations :: "real list list"

subsection \<open>Evaluating a list of points\<close>

text \<open>
  Both \<^verbatim>\<open>__init__\<close> and \<^verbatim>\<open>__breed\<close> evaluate every point of \<^verbatim>\<open>self.points\<close>:
  \<^verbatim>\<open>
  if self.multiprocessing:
      fitnesses = self.pool.map(lambda coordinates, func: func(*coordinates),
                                [point.coordinates for point in self.points],
                                [self.objective_function] * self.size)
      for index, point in enumerate(self.points):
          point.fitness = fitnesses[index]
  else:
      for point in self.points:
          point.evaluate_fitness(self.objective_function)
  \<close>
  The pool maps over the two argument lists zipped, so over the first \<^verbatim>\<open>size\<close>
  coordinate vectors, and keeps their order.
\<close>

fun evaluate_points :: "objective \<Rightarrow> Point list \<Rightarrow> Point list result" where
  "evaluate_points f [] = Ok []"
| "evaluate_points f (point # rest) =
     (case evaluate_fitness point f of
        Ok point' \<Rightarrow> rbind (evaluate_points f rest) (\<lambda>rest'. Ok (point' # rest'))
      | Raises e \<Rightarrow> Raises e
      | Starved \<Rightarrow> Starved)"

fun pool_map :: "objective \<Rightarrow> real list list \<Rightarrow> real list result" where
  "pool_map f [] = Ok []"
| "pool_map f (cs # rest) =
     (case call f cs of
        Ok v \<Rightarrow> rbind (pool_map f rest) (\<lambda>vs. Ok (v # vs))
      | Raises e \<Rightarrow> Raises e
      | Starved \<Rightarrow> Starved)"

definition assign_fitnesses :: "Point list \<Rightarrow> real list \<Rightarrow> Point list result" where
  "assign_fitnesses ps fitnesses =
     (if length fitnesses < length ps then Raises IndexError
      else Ok (map (\<lambda>(point, v). point\<lparr>fitness := v\<rparr>) (zip ps fitnesses)))"

definition evaluated_coordinates :: "Population \<Rightarrow> Point list \<Rightarrow> real list list" where
  "evaluated_coordinates pop ps =
     (if multiprocessing pop then take (size_pop pop) (map coordinates ps)
      else map coordinates ps)"

definition evaluate_all :: "Population \<Rightarrow> Point list \<Rightarrow> Point list result" where
  "evaluate_all pop ps =
     (if multiprocessing pop
      then rbind (pool_map (objective_function pop) (evaluated_coordinates pop ps))
             (assign_fitnesses ps)
      else evaluate_points (objective_function pop) ps)"

subsection \<open>Ranking\<close>

text \<open>
  \<^verbatim>\<open>
  def __evaluate_fitness_ranks(self):
      if not self.evaluated_fitness_ranks:
          self.mean_fitness = np.sum(point.fitness for point in self.points) / self.size
          self.points.sort(key=lambda point: point.fitness, reverse=True)
          for rank_number in range(self.size):
              self.points[rank_number].fitness_rank = rank_number
          self.evaluated_fitness_ranks = True
  \<close>
  Python's sort is stable, also with \<^verbatim>\<open>reverse=True\<close>: it is the stable ascending
  sort on the negated key. The division by \<^verbatim>\<open>self.size\<close> raises for a size of 0
  (for a population of size 0 that still holds points, a state the class never
  reaches, numpy may return \<open>inf\<close> instead).
\<close>

definition assign_fitness_ranks :: "nat \<Rightarrow> Point list \<Rightarrow> Point list result" where
  "assign_fitness_ranks n ps =
     (if length ps < n then Raises IndexError
      else Ok (map (\<lambda>(rank_number, point). point\<lparr>fitness_rank := int rank_number\<rparr>)
                 (enumerate 0 (take n ps)) @ drop n ps))"

definition evaluate_fitness_ranks :: "Population \<Rightarrow> Population result" where
  "evaluate_fitness_ranks pop =
     (if evaluated_fitness_ranks pop then Ok pop
      else if size_pop pop = 0 then Raises ZeroDivisionError
      else rbind (assign_fitness_ranks (size_pop pop)
                    (sort_key (\<lambda>point. - fitness point) (points pop)))
             (\<lambda>ranked. Ok (pop\<lparr>points := ranked,
                   mean_fitness := sum_list (map fitness (points pop)) / real (size_pop pop),
                   evaluated_fitness_ranks := True\<rparr>)))"

text \<open>
  \<^verbatim>\<open>
  def __evaluate_diversity_ranks(self):
      if not self.evaluated_diversity_ranks:
          self.mean_coordinates = np.sum(point.coordinates for point in self.points) / self.size
          for point in self.points:
              point.diversity = np.sum(np.abs(point.coordinates - self.mean_coordinates))
          self.mean_diversity = np.sum(point.diversity for point in self.points) / self.size
          self.points.sort(key=lambda point: point.diversity, reverse=True)
          for rank_number in range(self.size):
              self.points[rank_number].diversity_rank = rank_number
          self.evaluated_diversity_ranks = True
  \<close>
  The arithmetic on coordinate arrays is numpy's: arrays of one length combine
  elementwise, an array of length 1 (or a scalar, such as the 0 the sum starts from)
  is broadcast, any other pair of lengths raises \<open>ValueError\<close>.
\<close>

definition broadcast ::
  "(real \<Rightarrow> real \<Rightarrow> real) \<Rightarrow> real list \<Rightarrow> real list \<Rightarrow> real list result" where
  "broadcast f xs ys =
     (if length xs = length ys then Ok (map2 f xs ys)
      else if length xs = 1 then Ok (map (f (hd xs)) ys)
      else if length ys = 1 then Ok (map (\<lambda>x. f x (hd ys)) xs)
      else Raises (ValueError ''operands could not be broadcast together''))"

fun sum_coordinates :: "real list \<Rightarrow> Point list \<Rightarrow> real list result" where
  "sum_coordinates acc [] = Ok acc"
| "sum_coordinates acc (point # rest) =
     (case broadcast (+) acc (coordinates point) of
        Ok acc' \<Rightarrow> sum_coordinates acc' rest
      | Raises e \<Rightarrow> Raises e
      | Starved \<Rightarrow> Starved)"

fun set_diversities :: "real list \<Rightarrow> Point list \<Rightarrow> Point list result" where
  "set_diversities mean_coords [] = Ok []"
| "set_diversities mean_coords (point # rest) =
     (case broadcast (-) (coordinates point) mean_coords of
        Ok deviations \<Rightarrow>
          rbind (set_diversities mean_coords rest) (\<lambda>rest'.
            Ok (point\<lparr>diversity := sum_list (map abs deviations)\<rparr> # rest'))
      | Raises e \<Rightarrow> Raises e
      | Starved \<Rightarrow> Starved)"

definition assign_diversity_ranks :: "nat \<Rightarrow> Point list \<Rightarrow> Point list result" where
  "assign_diversity_ranks n ps =
     (if length ps < n then Raises IndexError
      else Ok (map (\<lambda>(rank_number, point). point\<lparr>diversity_rank := int rank_number\<rparr>)
                 (enumerate 0 (take n ps)) @ drop n ps))"

definition evaluate_diversity_ranks :: "Population \<Rightarrow> Population result" where
  "evaluate_diversity_ranks pop =
     (if evaluated_diversity_ranks pop then Ok pop
      else if size_pop pop = 0 then Raises ZeroDivisionError
      else rbind (sum_coordinates [0] (points pop)) (\<lambda>total_coords.
        let mean_coords = map (\<lambda>x. x / real (size_pop pop)) total_coords
        in rbind (set_diversities mean_coords (points pop)) (\<lambda>ps.
          rbind (assign_diversity_ranks (size_pop pop)
                   (sort_key (\<lambda>point. - diversity point) ps))
            (\<lambda>ranked. Ok (pop\<lparr>points := ranked,
                  mean_coordinates := mean_coords,
                  mean_diversity := sum_list (map diversity ps) / real (size_pop pop),
                  evaluated_diversity_ranks := True\<rparr>)))))"


section \<open>Crossover\<close>

text \<open>
  \<^verbatim>\<open>
  def crossover(point1, point2):
      if point1.associated_population != point2.associated_population:
          raise ValueError("Points are from different populations.")
      child1 = Point(associated_population=point1.associated_population,
                     dimensions=np.size(point1.coordinates))
      child2 = Point(associated_population=point2.associated_population,
                     dimensions=np.size(point2.coordinates))
      splitpoint = randint(1, np.size(point1.coordinates))
      child1.coordinates = np.concatenate([point1.coordinates[:splitpoint], point2.coordinates[splitpoint:]])
      child2.coordinates = np.concatenate([point2.coordinates[:splitpoint], point1.coordinates[splitpoint:]])
      return child1, child2
  \<close>
  The population that a point refers to gave the point its \<open>boundaries\<close> and
  \<open>mutation_range\<close> and never reassigns its own, so \<open>population_of\<close> reads them from the
  point. The two children are created by the constructor, which draws coordinates
  for them first (\<open>crossover_children\<close>); \<open>crossover_splitpoint\<close> is the draw of the
  split point.
\<close>

definition population_of :: "Point \<Rightarrow> (nat \<times> (real \<times> real) list \<times> real) option" where
  "population_of p =
     (case associated_population p of
        None \<Rightarrow> None
      | Some i \<Rightarrow> Some (i, boundaries p, mutation_range p))"

definition crossover_children ::
  "Point \<Rightarrow> Point \<Rightarrow> rng \<Rightarrow> ((Point \<times> Point) \<times> rng) result" where
  "crossover_children point1 point2 rng =
     rbind (Point_init (population_of point1) (length (coordinates point1)) rng)
       (\<lambda>(child1, rng1).
         rbind (Point_init (population_of point2) (length (coordinates point2)) rng1)
           (\<lambda>(child2, rng2). Ok ((child1, child2), rng2)))"

definition crossover_splitpoint :: "Point \<Rightarrow> rng \<Rightarrow> (nat \<times> rng) result" where
  "crossover_splitpoint point1 rng =
     rbind (randint 1 (int (length (coordinates point1))) rng)
       (\<lambda>(splitpoint, rng'). Ok (nat splitpoint, rng'))"

definition crossover :: "Point \<Rightarrow> Point \<Rightarrow> rng \<Rightarrow> ((Point \<times> Point) \<times> rng) result" where
  "crossover point1 point2 rng =
     (if associated_population point1 \<noteq> associated_population point2
      then Raises (ValueError ''Points are from different populations.'')
      else rbind (crossover_children point1 point2 rng) (\<lambda>((child1, child2), rng2).
        rbind (crossover_splitpoint point1 rng2) (\<lambda>(splitpoint, rng3).
          Ok ((child1\<lparr>coordinates :=
                   take splitpoint (coordinates point1) @ drop splitpoint (coordinates point2)\<rparr>,
               child2\<lparr>coordinates :=
                   take splitpoint (coordinates point2) @ drop splitpoint (coordinates point1)\<rparr>),
              rng3))))"

section \<open>Breeding\<close>

text \<open>
  \<^verbatim>\<open>
  weights = [1 / (1 + point.fitness_rank + point.diversity_rank) for point in self.points]
  \<close>
\<close>

fun breed_weights :: "Point list \<Rightarrow> real list result" where
  "breed_weights [] = Ok []"
| "breed_weights (point # rest) =
     (if 1 + fitness_rank point + diversity_rank point = 0 then Raises ZeroDivisionError
      else rbind (breed_weights rest) (\<lambda>ws.
             Ok (1 / real_of_int (1 + fitness_rank point + diversity_rank point) # ws)))"

text \<open>
  \<^verbatim>\<open>
  parent1 = weighted_choice(list(range(self.size)), weights)
  parent2 = weighted_choice(list(range(self.size)), weights)
  while parent1 == parent2:
      parent1 = weighted_choice(list(range(self.size)), weights)
      parent2 = weighted_choice(list(range(self.size)), weights)
  \<close>
  A parent is an index or \<open>None\<close>; two \<open>None\<close>s are equal and are drawn again.
  Each call of \<^verbatim>\<open>weighted_choice\<close> draws one word, so a round of the loop takes two.
\<close>

fun select_parents ::
  "nat \<Rightarrow> real list \<Rightarrow> rng \<Rightarrow> ((nat option \<times> nat option) \<times> rng) result" where
  "select_parents n weights [] = Starved"
| "select_parents n weights [w1] =
     (case weighted_choice [0..<n] weights [w1] of
        Ok _ \<Rightarrow> Starved
      | Raises e \<Rightarrow> Raises e
      | Starved \<Rightarrow> Starved)"
| "select_parents n weights (w1 # w2 # rng) =
     (case weighted_choice [0..<n] weights [w1] of
        Ok (parent1, _) \<Rightarrow>
          (case weighted_choice [0..<n] weights [w2] of
             Ok (parent2, _) \<Rightarrow>
               (if parent1 = parent2 then select_parents n weights rng
                else Ok ((parent1, parent2), rng))
           | Raises e \<Rightarrow> Raises e
           | Starved \<Rightarrow> Starved)
      | Raises e \<Rightarrow> Raises e
      | Starved \<Rightarrow> Starved)"

text \<open>\<^verbatim>\<open>self.points[parent]\<close>: indexing a list with \<open>None\<close> raises \<open>TypeError\<close>.\<close>

definition point_at :: "Point list \<Rightarrow> nat option \<Rightarrow> Point result" where
  "point_at ps parent = (case parent of None \<Rightarrow> Raises TypeError | Some i \<Rightarrow> list_get ps i)"

text \<open>
  \<^verbatim>\<open>
  while len(newpopulation) < self.size:
      (parent1, parent2 drawn as above)
      child1, child2 = crossover(self.points[parent1], self.points[parent2])
      newpopulation.append(child1)
      if len(newpopulation) < self.size:
          newpopulation.append(child2)
  \<close>
\<close>

function breed_loop ::
  "Point list \<Rightarrow> nat \<Rightarrow> real list \<Rightarrow> Point list \<Rightarrow> rng \<Rightarrow> (Point list \<times> rng) result" where
  "breed_loop ps n weights newpopulation rng =
     (if length newpopulation < n then
        (case select_parents n weights rng of
           Ok ((parent1, parent2), rng1) \<Rightarrow>
             (case point_at ps parent1 of
                Ok point1 \<Rightarrow>
                  (case point_at ps parent2 of
                     Ok point2 \<Rightarrow>
                       (case crossover point1 point2 rng1 of
                          Ok ((child1, child2), rng2) \<Rightarrow>
                            breed_loop ps n weights
                              (if Suc (length newpopulation) < n
                               then newpopulation @ [child1, child2]
                               else newpopulation @ [child1])
                              rng2
                        | Raises e \<Rightarrow> Raises e
                        | Starved \<Rightarrow> Starved)
                   | Raises e \<Rightarrow> Raises e
                   | Starved \<Rightarrow> Starved)
              | Raises e \<Rightarrow> Raises e
              | Starved \<Rightarrow> Starved)
         | Raises e \<Rightarrow> Raises e
         | Starved \<Rightarrow> Starved)
      else Ok (newpopulation, rng))"
  by pat_completeness auto
termination
  by (relation "measure (\<lambda>(ps, n, weights, newpopulation, rng). n - length newpopulation)") auto

text \<open>
  \<^verbatim>\<open>
  def __breed(self):
      self.points.sort(key=lambda point: point.fitness_rank)
      newpopulation = []
      for pointnumber in range(self.elite_population_size):
          newpopulation.append(self.points[pointnumber])
      weights = [...]
      while len(newpopulation) < self.size: ...
      self.points = newpopulation
      (every point of self.points is evaluated, see above)
      self.evaluated_fitness_ranks = False
      self.evaluated_diversity_ranks = False
  \<close>
\<close>

definition elite_points :: "Point list \<Rightarrow> nat \<Rightarrow> Point list result" where
  "elite_points ps n = (if length ps < n then Raises IndexError else Ok (take n ps))"

definition breed :: "Population \<Rightarrow> rng \<Rightarrow> (Population \<times> rng) result" where
  "breed pop rng =
     (let ps = sort_key fitness_rank (points pop)
      in rbind (elite_points ps (elite_population_size pop)) (\<lambda>elite.
           rbind (breed_weights ps) (\<lambda>weights.
             rbind (breed_loop ps (size_pop pop) weights elite rng) (\<lambda>(newpopulation, rng').
               rbind (evaluate_all pop newpopulation) (\<lambda>evaluated.
                 Ok (pop\<lparr>points := evaluated,
                        evaluations := evaluations pop @ evaluated_coordinates pop newpopulation,
                        evaluated_fitness_ranks := False,
                        evaluated_diversity_ranks := False\<rparr>, rng'))))))"

section \<open>Mutating a population\<close>

text \<open>
  \<^verbatim>\<open>
  def __mutate(self):
      for point in self.points:
          mutate_probability = uniform(0, 1)
          if mutate_probability < self.mutation_probability:
              point.mutate()
              point.evaluate_fitness(self.objective_function)
              self.evaluated_fitness_ranks = False
              self.evaluated_diversity_ranks = False
  \<close>
  \<open>mutate_points\<close> returns the points, the coordinate vectors evaluated and the tape.
\<close>

fun mutate_points ::
  "objective \<Rightarrow> real \<Rightarrow> Point list \<Rightarrow> rng \<Rightarrow> (Point list \<times> real list list \<times> rng) result" where
  "mutate_points f mp [] rng = Ok ([], [], rng)"
| "mutate_points f mp (point # rest) rng =
     (case uniform 0 1 rng of
        Ok (mutate_probability, rng1) \<Rightarrow>
          (if mutate_probability < mp then
             (case mutate point rng1 of
                Ok (mutated, rng2) \<Rightarrow>
                  (case evaluate_fitness mutated f of
                     Ok point' \<Rightarrow>
                       rbind (mutate_points f mp rest rng2) (\<lambda>(rest', evs, rng3).
                         Ok (point' # rest', coordinates mutated # evs, rng3))
                   | Raises e \<Rightarrow> Raises e
                   | Starved \<Rightarrow> Starved)
              | Raises e \<Rightarrow> Raises e
              | Starved \<Rightarrow> Starved)
           else rbind (mutate_points f mp rest rng1) (\<lambda>(rest', evs, rng3).
                  Ok (point # rest', evs, rng3)))
      | Raises e \<Rightarrow> Raises e
      | Starved \<Rightarrow> Starved)"

definition Population_mutate :: "Population \<Rightarrow> rng \<Rightarrow> (Population \<times> rng) result" where
  "Population_mutate pop rng =
     rbind (mutate_points (objective_function pop) (mutation_probability pop) (points pop) rng)
       (\<lambda>(ps, evs, rng').
          Ok (if evs = [] then pop\<lparr>points := ps\<rparr>
              else pop\<lparr>points := ps,
                      evaluations := evaluations pop @ evs,
                      evaluated_fitness_ranks := False,
                      evaluated_diversity_ranks := False\<rparr>, rng'))"

section \<open>Generations\<close>

text \<open>
  \<^verbatim>\<open>iterate\<close> breeds, mutates, ranks and counts the iteration; what it prints for
  \<^verbatim>\<open>verbose\<close> 1 and 2 changes no state. \<^verbatim>\<open>converge\<close> iterates \<^verbatim>\<open>iterations\<close> times.
\<close>

definition iterate :: "Population \<Rightarrow> rng \<Rightarrow> (Population \<times> rng) result" where
  "iterate pop rng =
     rbind (breed pop rng) (\<lambda>(pop1, rng1).
       rbind (Population_mutate pop1 rng1) (\<lambda>(pop2, rng2).
         rbind (evaluate_fitness_ranks pop2) (\<lambda>pop3.
           rbind (evaluate_diversity_ranks pop3) (\<lambda>pop4.
             Ok (pop4\<lparr>num_iterations := num_iterations pop4 + 1\<rparr>, rng2)))))"

fun converge :: "Population \<Rightarrow> nat \<Rightarrow> rng \<Rightarrow> (Population \<times> rng) result" where
  "converge pop 0 rng = Ok (pop, rng)"
| "converge pop (Suc iterations) rng =
     (case iterate pop rng of
        Ok (pop', rng') \<Rightarrow> converge pop' iterations rng'
      | Raises e \<Rightarrow> Raises e
      | Starved \<Rightarrow> Starved)"

text \<open>
  \<^verbatim>\<open>
  def best_estimate(self):
      best_point_fitness = float("-inf")
      best_point = None
      for point in self.points:
          if point.fitness > best_point_fitness:
              best_point_fitness = point.fitness
              best_point = point
      return best_point
  \<close>
  Every real fitness is greater than \<open>-inf\<close>, so the first point is always taken.
\<close>

fun best_estimate_loop :: "Point list \<Rightarrow> Point option \<Rightarrow> Point option" where
  "best_estimate_loop [] best_point = best_point"
| "best_estimate_loop (point # rest) best_point =
     best_estimate_loop rest
       (case best_point of
          None \<Rightarrow> Some point
        | Some b \<Rightarrow> if fitness point > fitness b then Some point else Some b)"

definition best_estimate :: "Population \<Rightarrow> Point option" where
  "best_estimate pop = best_estimate_loop (points pop) None"


section \<open>Constructing a population\<close>

text \<open>
  \<^verbatim>\<open>Population.__init__\<close>: the three checks of the parameters come first, then the
  number of dimensions (the argument count of the objective when \<^verbatim>\<open>dimensions\<close> is
  \<open>None\<close>), the boundaries (padded with \<open>(0, 100)\<close> and checked when they are passed),
  the fields (\<open>empty_population\<close>), then the points, their evaluation and the two
  rankings (\<open>populate\<close>). \<open>pid\<close> is the identity of the new object. The size of the process pool has no effect on the result and is
  left out.
\<close>

fun check_boundaries :: "(real \<times> real) list \<Rightarrow> unit result" where
  "check_boundaries [] = Ok ()"
| "check_boundaries (b # bs) =
     (if fst b > snd b
      then Raises (ValueError ''Incorrect value for boundary - min greater than max for range.'')
      else check_boundaries bs)"

fun create_points ::
  "nat \<times> (real \<times> real) list \<times> real \<Rightarrow> nat \<Rightarrow> nat \<Rightarrow> nat \<Rightarrow> rng \<Rightarrow> (Point list \<times> rng) result" where
  "create_points population dimensions pointnumber 0 rng = Ok ([], rng)"
| "create_points population dimensions pointnumber (Suc k) rng =
     (case Point_init (Some population) dimensions rng of
        Ok (point, rng1) \<Rightarrow>
          rbind (create_points population dimensions (Suc pointnumber) k rng1) (\<lambda>(ps, rng2).
            Ok (point\<lparr>index := int pointnumber\<rparr> # ps, rng2))
      | Raises e \<Rightarrow> Raises e
      | Starved \<Rightarrow> Starved)"

definition empty_population ::
  "objective \<Rightarrow> nat \<Rightarrow> nat \<Rightarrow> (real \<times> real) list \<Rightarrow> real \<Rightarrow> real \<Rightarrow> real \<Rightarrow>
   int \<Rightarrow> bool \<Rightarrow> nat \<Rightarrow> Population" where
  "empty_population f nd population_size bs elite_fraction mutation_prob
     mutation_rng verbosity multiproc pid =
     \<lparr>ident = pid, points = [], size_pop = population_size,
      objective_function = f,
      elite_population_size = nat \<lfloor>elite_fraction * real population_size\<rfloor>,
      mutation_probability = mutation_prob,
      mutation_range_pop = mutation_rng,
      boundaries_pop = bs, verbose = verbosity,
      evaluated_fitness_ranks = False, evaluated_diversity_ranks = False,
      mean_fitness = 0, mean_coordinates = replicate nd 0, mean_diversity = 0,
      num_iterations = 1, multiprocessing = multiproc, num_dimensions = nd,
      evaluations = []\<rparr>"

definition populate :: "Population \<Rightarrow> rng \<Rightarrow> (Population \<times> rng) result" where
  "populate pop0 rng =
     rbind (create_points (ident pop0, boundaries_pop pop0, mutation_range_pop pop0)
              (num_dimensions pop0) 0 (size_pop pop0) rng) (\<lambda>(ps, rng1).
       rbind (evaluate_all pop0 ps) (\<lambda>evaluated.
         rbind (evaluate_fitness_ranks
                  (pop0\<lparr>points := evaluated,
                        evaluations := evaluated_coordinates pop0 ps\<rparr>)) (\<lambda>pop1.
           rbind (evaluate_diversity_ranks pop1) (\<lambda>pop2. Ok (pop2, rng1)))))"

definition Population_init ::
  "objective \<Rightarrow> nat option \<Rightarrow> nat \<Rightarrow> (real \<times> real) list option \<Rightarrow> real \<Rightarrow> real \<Rightarrow> real \<Rightarrow>
   int \<Rightarrow> bool \<Rightarrow> nat \<Rightarrow> rng \<Rightarrow> (Population \<times> rng) result" where
  "Population_init f dimensions population_size bounds elite_fraction mutation_prob
     mutation_rng verbosity multiproc pid rng =
     (if elite_fraction > 1 \<or> elite_fraction < 0
      then Raises (ValueError ''Parameter elite_fraction must be in range [0,1].'')
      else if mutation_prob > 1 \<or> mutation_prob < 0
      then Raises (ValueError ''Parameter mutation_probability must be in range [0,1].'')
      else if verbosity \<noteq> 0 \<and> verbosity \<noteq> 1 \<and> verbosity \<noteq> 2
      then Raises (ValueError ''Parameter verbose must be one of 0, 1 or 2.'')
      else
        rbind (case dimensions of
                 None \<Rightarrow> (case co_argcount f of
                             None \<Rightarrow> Raises AttributeError
                           | Some n \<Rightarrow> Ok n)
               | Some d \<Rightarrow> Ok d) (\<lambda>nd.
        rbind (case bounds of
                 None \<Rightarrow> Ok (replicate nd (0, 100))
               | Some bs \<Rightarrow>
                   rbind (check_boundaries (bs @ replicate (nd - length bs) (0, 100)))
                     (\<lambda>_. Ok (bs @ replicate (nd - length bs) (0, 100)))) (\<lambda>bs.
        populate (empty_population f nd population_size bs elite_fraction mutation_prob
                    mutation_rng verbosity multiproc pid) rng)))"

section \<open>Maximize and minimize\<close>

text \<open>
  \<^verbatim>\<open>
  def maximize(objective_function=None, ..., iterations=15):
      population = Population(...)
      population.converge(iterations)
      return population.best_estimate()

  def minimize(objective_function=None, **kwargs):
      def objective_function_neg(*args):
          return -objective_function(*args)
      best_point = maximize(objective_function=objective_function_neg, **kwargs)
      best_point.evaluate_fitness(objective_function)
      return best_point
  \<close>
  \<^verbatim>\<open>objective_function_neg\<close> takes \<^verbatim>\<open>*args\<close> only, so its argument count is 0. A call
  of \<^verbatim>\<open>evaluate_fitness\<close> on \<open>None\<close> raises \<open>AttributeError\<close>.
\<close>

definition maximize ::
  "objective \<Rightarrow> nat option \<Rightarrow> nat \<Rightarrow> (real \<times> real) list option \<Rightarrow> real \<Rightarrow> real \<Rightarrow> real \<Rightarrow>
   int \<Rightarrow> bool \<Rightarrow> nat \<Rightarrow> nat \<Rightarrow> rng \<Rightarrow> Point option result" where
  "maximize f dimensions population_size bounds elite_fraction mutation_prob
     mutation_rng verbosity multiproc iterations pid rng =
     rbind (Population_init f dimensions population_size bounds elite_fraction mutation_prob
              mutation_rng verbosity multiproc pid rng) (\<lambda>(population, rng1).
       rbind (converge population iterations rng1) (\<lambda>(population', rng2).
         Ok (best_estimate population')))"

definition objective_function_neg :: "objective \<Rightarrow> objective" where
  "objective_function_neg f =
     \<lparr>co_argcount = Some 0, call = (\<lambda>args. rbind (call f args) (\<lambda>v. Ok (- v)))\<rparr>"

definition minimize ::
  "objective \<Rightarrow> nat option \<Rightarrow> nat \<Rightarrow> (real \<times> real) list option \<Rightarrow> real \<Rightarrow> real \<Rightarrow> real \<Rightarrow>
   int \<Rightarrow> bool \<Rightarrow> nat \<Rightarrow> nat \<Rightarrow> rng \<Rightarrow> Point result" where
  "minimize f dimensions population_size bounds elite_fraction mutation_prob
     mutation_rng verbosity multiproc iterations pid rng =
     rbind (maximize (objective_function_neg f) dimensions population_size bounds elite_fraction
              mutation_prob mutation_rng verbosity multiproc iterations pid rng) (\<lambda>best_point.
       case best_point of
         None \<Rightarrow> Raises AttributeError
       | Some p \<Rightarrow> evaluate_fitness p f)"


section \<open>Ranked populations\<close>



section \<open>Evaluated points\<close>

text \<open>
  \<open>evaluated_as f p p'\<close>: \<open>p'\<close> is \<open>p\<close> after a call of the objective \<open>f\<close> on its
  coordinates has returned and has been stored as its fitness.
\<close>

definition evaluated_as :: "objective \<Rightarrow> Point \<Rightarrow> Point \<Rightarrow> bool" where
  "evaluated_as f p p' \<longleftrightarrow>
     call f (coordinates p) = Ok (fitness p') \<and> p' = p\<lparr>fitness := fitness p'\<rparr>"

section \<open>Well-formed populations\<close>

text \<open>
  What the constructor establishes and every generation keeps: the population holds
  \<open>size\<close> points, at least one, of \<open>num_dimensions\<close> coordinates each, and the elite are
  at most \<open>size\<close>.
\<close>

definition well_formed :: "Population \<Rightarrow> bool" where
  "well_formed pop \<longleftrightarrow>
     length (points pop) = size_pop pop \<and> 0 < size_pop pop \<and>
     elite_population_size pop \<le> size_pop pop \<and>
     list_all (\<lambda>p. length (coordinates p) = num_dimensions pop) (points pop)"

section \<open>Example inputs\<close>

text \<open>
  A point without a population, as \<^verbatim>\<open>Point(dimensions=n)\<close> creates it, with the
  coordinates given; the objective \<^verbatim>\<open>lambda x, y: x + y\<close>; four words of the tape,
  for which \<^verbatim>\<open>random()\<close> is 1/8, 1/4, 1/2 and 3/4; a member of population 0 over the
  default boundaries, and the population of two such members that the constructor
  builds for the tape \<open>[w14, w12, w34, w14]\<close>.
\<close>

definition example_point :: "real list \<Rightarrow> Point" where
  "example_point cs =
     \<lparr>associated_population = None, boundaries = replicate (length cs) (0, 100),
      mutation_range = 5, coordinates = cs, index = - 1, fitness = 0, diversity = 0,
      fitness_rank = - 1, diversity_rank = - 1\<rparr>"

definition example_objective :: objective where
  "example_objective =
     \<lparr>co_argcount = Some 2,
      call = (\<lambda>args. case args of [x, y] \<Rightarrow> Ok (x + y) | _ \<Rightarrow> Raises TypeError)\<rparr>"

definition w18 :: nat where "w18 = 1125899906842624"
definition w14 :: nat where "w14 = 2251799813685248"
definition w12 :: nat where "w12 = 4503599627370496"
definition w34 :: nat where "w34 = 6755399441055744"

definition example_member :: "real list \<Rightarrow> int \<Rightarrow> real \<Rightarrow> real \<Rightarrow> int \<Rightarrow> int \<Rightarrow> Point" where
  "example_member cs ix f d fr dr =
     \<lparr>associated_population = Some 0, boundaries = [(0, 100), (0, 100)],
      mutation_range = 5, coordinates = cs, index = ix, fitness = f, diversity = d,
      fitness_rank = fr, diversity_rank = dr\<rparr>"

definition example_population :: Population where
  "example_population =
     \<lparr>ident = 0,
      points = [example_member [75, 25] 1 100 (75 / 2) 0 0,
                example_member [25, 50] 0 75 (75 / 2) 1 1],
      size_pop = 2, objective_function = example_objective, elite_population_size = 1,
      mutation_probability = 1 / 20, mutation_range_pop = 5,
      boundaries_pop = [(0, 100), (0, 100)], verbose = 0,
      evaluated_fitness_ranks = True, evaluated_diversity_ranks = True,
      mean_fitness = 175 / 2, mean_coordinates = [50, 75 / 2], mean_diversity = 75 / 2,
      num_iterations = 1, multiprocessing = False, num_dimensions = 2,
      evaluations = [[25, 50], [75, 25]]\<rparr>"


section \<open>Basic facts\<close>

lemma rbind_Ok_iff: "rbind m f = Ok y \<longleftrightarrow> (\<exists>x. m = Ok x \<and> f x = Ok y)"
  by (cases m) auto

lemma random_unit_range: "0 \<le> random_unit w \<and> random_unit w < 1"
  by (simp add: random_unit_def)

lemma random_unit_examples:
  "random_unit w18 = 1 / 8" "random_unit w14 = 1 / 4" "random_unit w12 = 1 / 2"
  "random_unit w34 = 3 / 4" "random_unit 0 = 0"
  by (simp_all add: random_unit_def w18_def w14_def w12_def w34_def)

lemma uniform_range:
  assumes "uniform a b rng = Ok (x, rng')" "a \<le> b"
  shows "a \<le> x \<and> x \<le> b"
proof -
  obtain w where x: "x = a + (b - a) * random_unit w"
    using assms(1) by (cases rng) auto
  have "0 \<le> (b - a) * random_unit w"
    using assms(2) random_unit_range[of w] by (intro mult_nonneg_nonneg) auto
  moreover have "(b - a) * random_unit w \<le> (b - a) * 1"
    using assms(2) random_unit_range[of w] by (intro mult_left_mono) auto
  ultimately show ?thesis using x by simp
qed

lemma randint_range:
  assumes "randint a b rng = Ok (i, rng')"
  shows "a \<le> i \<and> i \<le> b"
proof -
  have ab: "a \<le> b" using assms by (auto split: if_splits)
  obtain w where i: "i = a + int (w mod nat (b - a + 1))"
    using assms ab by (auto split: list.splits)
  have "w mod nat (b - a + 1) < nat (b - a + 1)" using ab by (intro mod_less_divisor) simp
  then show ?thesis using i ab by linarith
qed

section \<open>Weighted choice: the threshold 0\<close>

text \<open>
  In the reals the running total never drops below 0, so for non-negative weights of
  positive sum the threshold 0 is never undercut and the loop falls through.
\<close>

lemma weighted_choice_loop_falls_through:
  "sum_list ws \<le> tot - threshold \<Longrightarrow> list_all (\<lambda>w. 0 \<le> w) ws \<Longrightarrow>
   weighted_choice_loop choices ws i tot threshold = Ok None"
proof (induction ws arbitrary: i tot)
  case Nil
  then show ?case by simp
next
  case (Cons w ws)
  have "0 \<le> sum_list ws" using Cons.prems(2) by (induction ws) auto
  with Cons.prems have "\<not> tot - w < threshold" by simp
  moreover have "sum_list ws \<le> (tot - w) - threshold" using Cons.prems by simp
  ultimately show ?case using Cons.IH[of "tot - w" "Suc i"] Cons.prems(2) by simp
qed

lemma sum_list_normalized_weights:
  assumes "sum_list ws \<noteq> 0"
  shows "sum_list (normalized_weights ws) = 1"
proof -
  have "sum_list (map (\<lambda>w. w / c) ws) = sum_list ws / c" for c :: real
    by (induction ws) (auto simp: add_divide_distrib)
  then show ?thesis using assms by (simp add: normalized_weights_def)
qed

lemma weighted_choice_at_zero:
  assumes "list_all (\<lambda>w. 0 \<le> w) weights" "0 < sum_list weights"
  shows "weighted_choice_at choices weights 0 = Ok None"
proof -
  have "list_all (\<lambda>w. 0 \<le> w) (normalized_weights weights)"
    using assms by (auto simp: normalized_weights_def list_all_iff)
  moreover have "sum_list (normalized_weights weights) = 1"
    using assms sum_list_normalized_weights by simp
  ultimately show ?thesis
    unfolding weighted_choice_at_def by (intro weighted_choice_loop_falls_through) auto
qed

text \<open>A single positive weight is chosen for every threshold except 0.\<close>

lemma weighted_choice_loop_single:
  "j < length ws \<Longrightarrow> ws ! j = tot \<Longrightarrow> (\<forall>i < j. ws ! i = 0) \<Longrightarrow> 0 < threshold \<Longrightarrow>
   threshold \<le> tot \<Longrightarrow>
   weighted_choice_loop choices ws k tot threshold =
     rbind (list_get choices (k + j)) (\<lambda>c. Ok (Some c))"
proof (induction ws arbitrary: j k)
  case Nil
  then show ?case by simp
next
  case (Cons w ws)
  show ?case
  proof (cases j)
    case 0
    then show ?thesis using Cons.prems by simp
  next
    case (Suc j')
    have w0: "w = 0" using Cons.prems(3) Suc by auto
    have "weighted_choice_loop choices ws (Suc k) tot threshold =
            rbind (list_get choices (Suc k + j')) (\<lambda>c. Ok (Some c))"
      using Cons.prems Suc by (intro Cons.IH) auto
    then show ?thesis using w0 Cons.prems Suc by simp
  qed
qed

lemma sum_list_single:
  fixes ws :: "real list"
  shows "j < length ws \<Longrightarrow> (\<forall>i < length ws. i \<noteq> j \<longrightarrow> ws ! i = 0) \<Longrightarrow> sum_list ws = ws ! j"
proof (induction ws arbitrary: j)
  case Nil
  then show ?case by simp
next
  case (Cons w ws)
  show ?case
  proof (cases j)
    case 0
    have "\<forall>x \<in> set ws. x = 0"
    proof
      fix x assume "x \<in> set ws"
      then obtain i where "i < length ws" "ws ! i = x" by (auto simp: in_set_conv_nth)
      then show "x = 0" using Cons.prems(2)[rule_format, of "Suc i"] 0 by simp
    qed
    then have "sum_list ws = 0" by (induction ws) auto
    then show ?thesis using 0 by simp
  next
    case (Suc j')
    have "w = 0" using Cons.prems(2)[rule_format, of 0] Suc by simp
    moreover have "sum_list ws = ws ! j'"
    proof (rule Cons.IH)
      show "j' < length ws" using Cons.prems(1) Suc by simp
      show "\<forall>i < length ws. i \<noteq> j' \<longrightarrow> ws ! i = 0"
        using Cons.prems(2) Suc by (metis Suc_less_eq length_Cons nat.inject nth_Cons_Suc)
    qed
    ultimately show ?thesis using Suc by simp
  qed
qed

lemma weighted_choice_at_single:
  assumes "j < length weights" "0 < weights ! j"
    and "\<forall>i < length weights. i \<noteq> j \<longrightarrow> weights ! i = 0"
    and "0 < threshold" "threshold \<le> 1" "j < length choices"
  shows "weighted_choice_at choices weights threshold = Ok (Some (choices ! j))"
proof -
  have s: "sum_list weights = weights ! j" using sum_list_single assms(1,3) by blast
  have "weighted_choice_loop choices (normalized_weights weights) 0 1 threshold =
          rbind (list_get choices (0 + j)) (\<lambda>c. Ok (Some c))"
  proof (rule weighted_choice_loop_single)
    show "j < length (normalized_weights weights)" using assms(1) by (simp add: normalized_weights_def)
    show "normalized_weights weights ! j = 1" using assms(1,2) s by (simp add: normalized_weights_def)
    show "\<forall>i < j. normalized_weights weights ! i = 0"
      using assms(1,3) by (simp add: normalized_weights_def)
  qed (use assms in auto)
  then show ?thesis using assms(6) by (simp add: weighted_choice_at_def list_get_def)
qed


text \<open>The definitions that a run on the example inputs unfolds.\<close>

lemmas example_defs =
  example_objective_def example_population_def example_member_def example_point_def

lemmas run_defs =
  Point_init_def list_get_def random_unit_examples evaluate_all_def evaluate_fitness_def
  evaluated_coordinates_def weighted_choice_def weighted_choice_at_def normalized_weights_def
  crossover_def crossover_children_def crossover_splitpoint_def population_of_def point_at_def
  elite_points_def breed_def

text \<open>
  Claim C8 (a weight vector with exactly one positive entry always selects that entry,
  for every value of the threshold): the code does not do so. Over the weights
  \<open>[1, 0, 0]\<close> and for the threshold 0, which \<^verbatim>\<open>uniform(0, 1)\<close> can return, the running
  total reaches 0, \<open>0 < 0\<close> fails at every index, and the function returns \<open>None\<close>
  instead of the item at index 0. For every other threshold the entry is selected
  (\<open>weighted_choice_at_single\<close>).
\<close>

theorem weighted_choice_single_entry_threshold_zero:
  "weighted_choice_at [c0, c1, c2] [1, 0, 0] 0 = Ok None"
  by (simp add: weighted_choice_at_def normalized_weights_def)

section \<open>Candidates stay within their bounds\<close>

lemma in_bounds_iff:
  "in_bounds p \<longleftrightarrow> length (coordinates p) \<le> length (boundaries p) \<and>
     (\<forall>d < length (coordinates p).
        fst (boundaries p ! d) \<le> coordinates p ! d \<and> coordinates p ! d \<le> snd (boundaries p ! d))"
  by (auto simp: in_bounds_def list_all_length)

lemma ordered_bounds_nth:
  "ordered_bounds bs \<Longrightarrow> d < length bs \<Longrightarrow> fst (bs ! d) \<le> snd (bs ! d)"
  by (simp add: ordered_bounds_def list_all_length)

lemma draw_coordinates_bounds:
  "draw_coordinates bs d n rng = Ok (cs, rng') \<Longrightarrow> ordered_bounds bs \<Longrightarrow>
   length cs = n \<and> (n > 0 \<longrightarrow> d + n \<le> length bs) \<and>
   (\<forall>k < n. fst (bs ! (d + k)) \<le> cs ! k \<and> cs ! k \<le> snd (bs ! (d + k)))"
proof (induction n arbitrary: d rng cs)
  case 0
  then show ?case by simp
next
  case (Suc n)
  from Suc.prems(1) obtain c rng1 cs1 where
    d: "d < length bs" and u: "uniform (fst (bs ! d)) (snd (bs ! d)) rng = Ok (c, rng1)"
    and r: "draw_coordinates bs (Suc d) n rng1 = Ok (cs1, rng')" and cs: "cs = c # cs1"
    by (auto simp: list_get_def split: if_splits result.splits)
  have c: "fst (bs ! d) \<le> c \<and> c \<le> snd (bs ! d)"
    using uniform_range[OF u] ordered_bounds_nth[OF Suc.prems(2) d] by simp
  note ih = Suc.IH[OF r Suc.prems(2)]
  have "\<forall>k < Suc n. fst (bs ! (d + k)) \<le> cs ! k \<and> cs ! k \<le> snd (bs ! (d + k))"
  proof (intro allI impI)
    fix k assume "k < Suc n"
    then show "fst (bs ! (d + k)) \<le> cs ! k \<and> cs ! k \<le> snd (bs ! (d + k))"
      using c ih cs by (cases k) auto
  qed
  moreover have "d + Suc n \<le> length bs" using d ih by (cases n) auto
  ultimately show ?case using ih cs by simp
qed

lemma draw_coordinates_length:
  "draw_coordinates bs d n rng = Ok (cs, rng') \<Longrightarrow> length cs = n"
  by (induction n arbitrary: d rng cs) (auto split: result.splits)

lemma Point_init_length:
  assumes "Point_init population n rng = Ok (p, rng')"
  shows "length (coordinates p) = n"
  using assms
  by (cases population) (auto simp: Point_init_def rbind_Ok_iff draw_coordinates_length)

lemma Point_init_in_bounds:
  assumes "Point_init population dimensions rng = Ok (p, rng')" "ordered_bounds (boundaries p)"
  shows "in_bounds p"
proof -
  obtain assoc bs mr where a:
    "(case population of None \<Rightarrow> (None, replicate dimensions (0, 100), 5)
      | Some (pid, pbs, pmr) \<Rightarrow> (Some pid, pbs, pmr)) = (assoc, bs, mr)"
    by (metis prod_cases3)
  from assms(1) a obtain cs where dc: "draw_coordinates bs 0 dimensions rng = Ok (cs, rng')"
    and p: "boundaries p = bs" "coordinates p = cs"
    by (auto simp: Point_init_def rbind_Ok_iff)
  have ob: "ordered_bounds bs" using assms(2) p by simp
  from draw_coordinates_bounds[OF dc ob] show ?thesis
    unfolding in_bounds_iff p by (cases dimensions) auto
qed

lemma mutate_result:
  assumes "mutate p rng = Ok (p', rng')"
  obtains i x where "mutate_draws p rng = Ok ((i, x), rng')"
    "i < length (coordinates p)" "i < length (boundaries p)"
    "p' = p\<lparr>coordinates :=
              (coordinates p)[i := max (snd (boundaries p ! i)) (min (fst (boundaries p ! i)) x)]\<rparr>"
proof -
  from assms obtain i x rng2 where md0: "mutate_draws p rng = Ok ((i, x), rng2)"
    by (auto simp: mutate_def rbind_Ok_iff)
  from assms md0 have md: "mutate_draws p rng = Ok ((i, x), rng')"
    and ib: "i < length (boundaries p)"
    and p': "p' = p\<lparr>coordinates :=
        (coordinates p)[i := max (snd (boundaries p ! i)) (min (fst (boundaries p ! i)) x)]\<rparr>"
    by (auto simp: mutate_def list_get_def rbind_Ok_iff split: if_splits)
  from md obtain j rng1 where
    ri: "randint 0 (int (length (coordinates p)) - 1) rng = Ok (j, rng1)" and i: "i = nat j"
    by (auto simp: mutate_draws_def rbind_Ok_iff simp del: randint.simps)
  from randint_range[OF ri] i have "i < length (coordinates p)" by linarith
  with md ib p' that show ?thesis by blast
qed

text \<open>
  With the two lines of the clamp in the order of the source, the coordinate stored is
  the upper bound of the dimension, whatever the perturbation.
\<close>

lemma mutate_stores_upper:
  assumes "mutate p rng = Ok (p', rng')" "ordered_bounds (boundaries p)"
  obtains i where "i < length (coordinates p)" "i < length (boundaries p)"
    "coordinates p' = (coordinates p)[i := snd (boundaries p ! i)]"
    "boundaries p' = boundaries p"
proof -
  from mutate_result[OF assms(1)] obtain i x where
    i: "i < length (coordinates p)" "i < length (boundaries p)"
    and p': "p' = p\<lparr>coordinates :=
        (coordinates p)[i := max (snd (boundaries p ! i)) (min (fst (boundaries p ! i)) x)]\<rparr>"
    by metis
  have "fst (boundaries p ! i) \<le> snd (boundaries p ! i)"
    using ordered_bounds_nth[OF assms(2) i(2)] .
  then have "max (snd (boundaries p ! i)) (min (fst (boundaries p ! i)) x) = snd (boundaries p ! i)"
    by simp
  with p' i that show ?thesis by simp
qed

lemma mutate_in_bounds:
  assumes "in_bounds q" "ordered_bounds (boundaries q)" "mutate q rng = Ok (q', rng')"
  shows "in_bounds q'"
proof -
  from mutate_stores_upper[OF assms(3,2)] obtain i where
    i: "i < length (coordinates q)" "i < length (boundaries q)"
    and c: "coordinates q' = (coordinates q)[i := snd (boundaries q ! i)]"
    and b: "boundaries q' = boundaries q"
    by metis
  have "fst (boundaries q ! i) \<le> snd (boundaries q ! i)"
    using ordered_bounds_nth[OF assms(2) i(2)] .
  then show ?thesis using assms(1) i unfolding in_bounds_iff c b
    by (auto simp: nth_list_update)
qed

text \<open>
  Claim C1 (after \<^verbatim>\<open>mutate()\<close> the coordinate at the chosen dimension is the perturbed
  value clamped into its bounds, \<open>max lower (min x upper)\<close>): the code does not do so.
  For the point \<open>[50]\<close> over the bounds \<open>(0, 100)\<close>, the dimension 0 and the perturbation
  1.25, the perturbed value is 51.25, which lies within the bounds and is its own
  clamp, and the code stores 100.
\<close>

theorem mutate_clamp_inverted:
  "mutate_draws (example_point [50]) [0, 5629499534213120] = Ok ((0, 51.25), []) \<and>
   mutate (example_point [50]) [0, 5629499534213120] = Ok (example_point [100], []) \<and>
   max (0::real) (min 51.25 100) = 51.25"
  by (simp add: mutate_def mutate_draws_def example_point_def list_get_def random_unit_def)

text \<open>
  Claim C2: for bounds with \<open>lower \<le> upper\<close> in every dimension, every coordinate of a
  candidate lies within its bounds after the candidate is created, and after every call
  of \<^verbatim>\<open>mutate()\<close> on a candidate that was within its bounds (the call leaves the
  bounds themselves as they were).
\<close>

theorem bounds_invariant:
  "(Point_init population dimensions rng = Ok (p, rng') \<and> ordered_bounds (boundaries p)
      \<longrightarrow> in_bounds p) \<and>
   (in_bounds q \<and> ordered_bounds (boundaries q) \<and> mutate q rng2 = Ok (q', rng2')
      \<longrightarrow> in_bounds q' \<and> boundaries q' = boundaries q)"
  using Point_init_in_bounds mutate_in_bounds mutate_stores_upper by metis

theorem bounds_invariant_witness:
  "Point_init None 1 [w12] = Ok (example_point [50], []) \<and>
   ordered_bounds (boundaries (example_point [50])) \<and> in_bounds (example_point [50]) \<and>
   mutate (example_point [50]) [0, w34] = Ok (example_point [100], []) \<and>
   in_bounds (example_point [100])"
proof -
  have a: "Point_init None 1 [w12] = Ok (example_point [50], [])"
    by (simp add: example_defs run_defs)
  have b: "ordered_bounds (boundaries (example_point [50]))"
    by (simp add: ordered_bounds_def example_point_def)
  have c: "mutate (example_point [50]) [0, w34] = Ok (example_point [100], [])"
    by (simp add: mutate_def mutate_draws_def example_defs run_defs)
  from bounds_invariant[of None 1 "[w12]" "example_point [50]" "[]"
      "example_point [50]" "[0, w34]" "example_point [100]" "[]"] a b c
  show ?thesis by simp
qed


section \<open>Crossover\<close>

lemma crossover_splitpoint_bounds:
  assumes "crossover_splitpoint p rng = Ok (k, rng')"
  shows "1 \<le> k \<and> k \<le> length (coordinates p)"
proof -
  from assms obtain j where
    r: "randint 1 (int (length (coordinates p))) rng = Ok (j, rng')" and k: "k = nat j"
    by (auto simp: crossover_splitpoint_def rbind_Ok_iff simp del: randint.simps)
  from randint_range[OF r] k show ?thesis by linarith
qed





text \<open>
  Claim C5: when \<^verbatim>\<open>crossover(A, B)\<close> returns for parents of one dimensionality, with the
  split index \<open>k\<close> it drew, the first child has the first \<open>k\<close> coordinates of \<open>A\<close> followed
  by the remaining coordinates of \<open>B\<close>, the second child the first \<open>k\<close> of \<open>B\<close> followed
  by the remaining ones of \<open>A\<close>, and both have the dimensionality of the parents.
\<close>

theorem crossover_coordinates:
  assumes "crossover point1 point2 rng = Ok ((child1, child2), rng')"
    and "length (coordinates point1) = length (coordinates point2)"
  shows "\<exists>c1 c2 rng2 k.
      crossover_children point1 point2 rng = Ok ((c1, c2), rng2) \<and>
      crossover_splitpoint point1 rng2 = Ok (k, rng') \<and>
      coordinates child1 = take k (coordinates point1) @ drop k (coordinates point2) \<and>
      coordinates child2 = take k (coordinates point2) @ drop k (coordinates point1) \<and>
      length (coordinates child1) = length (coordinates point1) \<and>
      length (coordinates child2) = length (coordinates point2)"
proof -
  from assms(1) obtain c1 c2 rng2 k where
    ch: "crossover_children point1 point2 rng = Ok ((c1, c2), rng2)"
    and sp: "crossover_splitpoint point1 rng2 = Ok (k, rng')"
    and c1: "child1 = c1\<lparr>coordinates :=
               take k (coordinates point1) @ drop k (coordinates point2)\<rparr>"
    and c2: "child2 = c2\<lparr>coordinates :=
               take k (coordinates point2) @ drop k (coordinates point1)\<rparr>"
    by (auto simp: crossover_def rbind_Ok_iff split: if_splits)
  from crossover_splitpoint_bounds[OF sp] have k: "k \<le> length (coordinates point1)" by simp
  show ?thesis using ch sp c1 c2 k assms(2) by auto
qed

theorem crossover_coordinates_witness:
  "crossover (example_point [10, 20]) (example_point [30, 40]) [w12, w12, w12, w12, 0] =
     Ok ((example_point [10, 40], example_point [30, 20]), []) \<and>
   length (coordinates (example_point [10, 20])) = length (coordinates (example_point [30, 40])) \<and>
   (\<exists>c1 c2 rng2 k.
      crossover_children (example_point [10, 20]) (example_point [30, 40])
        [w12, w12, w12, w12, 0] = Ok ((c1, c2), rng2) \<and>
      crossover_splitpoint (example_point [10, 20]) rng2 = Ok (k, []) \<and>
      coordinates (example_point [10, 40]) =
        take k (coordinates (example_point [10, 20])) @ drop k (coordinates (example_point [30, 40])) \<and>
      coordinates (example_point [30, 20]) =
        take k (coordinates (example_point [30, 40])) @ drop k (coordinates (example_point [10, 20])) \<and>
      length (coordinates (example_point [10, 40])) = length (coordinates (example_point [10, 20])) \<and>
      length (coordinates (example_point [30, 20])) = length (coordinates (example_point [30, 40])))"
proof -
  have a: "crossover (example_point [10, 20]) (example_point [30, 40]) [w12, w12, w12, w12, 0] =
     Ok ((example_point [10, 40], example_point [30, 20]), [])"
    by (simp add: example_defs run_defs)
  have b: "length (coordinates (example_point [10, 20])) =
           length (coordinates (example_point [30, 40]))"
    by (simp add: example_point_def)
  from crossover_coordinates[OF a b] a b show ?thesis by blast
qed

section \<open>Validation of the parameters\<close>

text \<open>
  Claim C9: the construction of a population fails with the error of a bad
  configuration (the \<open>ValueError\<close> the constructor raises) whenever \<open>elite_fraction\<close> or
  \<open>mutation_probability\<close> is outside \<open>[0, 1]\<close> or \<open>verbose\<close> is not 0, 1 or 2. It does so
  whatever the objective, the other parameters and the tape are, also for an empty
  tape and an objective that raises: no point is created or evaluated before, and no
  population is returned.
\<close>

theorem configuration_errors:
  assumes "elite_fraction > 1 \<or> elite_fraction < 0 \<or> mutation_prob > 1 \<or> mutation_prob < 0 \<or>
           (verbosity \<noteq> 0 \<and> verbosity \<noteq> 1 \<and> verbosity \<noteq> 2)"
  shows "\<exists>msg. Population_init f dimensions population_size bounds elite_fraction mutation_prob
           mutation_rng verbosity multiproc pid rng = Raises (ValueError msg)"
  using assms by (auto simp: Population_init_def)

theorem configuration_errors_witness:
  "(3 / 2 :: real) > 1 \<and>
   (\<exists>msg. Population_init example_objective None 2 None (3 / 2) (1 / 20) 5 0 False 0 []
            = Raises (ValueError msg))"
proof -
  have a: "(3 / 2 :: real) > 1" by simp
  from configuration_errors[of "3 / 2" "1 / 20" 0 example_objective None 2 None 5 False 0 "[]"] a
  show ?thesis by simp
qed

section \<open>Weighted choice is partial\<close>

text \<open>
  Claim C10: \<^verbatim>\<open>weighted_choice\<close> is partial. Over the weights \<open>[1, 0, 0]\<close>, which are
  non-negative and of positive sum, and for the threshold 0 the loop ends without a
  return and the function gives \<open>None\<close>, without raising. In \<^verbatim>\<open>__breed\<close> a first parent
  \<open>None\<close> next to a second parent that is an index is used as a list index, which raises
  \<open>TypeError\<close>.
\<close>

theorem weighted_choice_partial:
  "weighted_choice [0, 1, 2::nat] [1, 0, 0] (0 # rng) = Ok (None, rng) \<and>
   breed example_population [0, w12] = Raises TypeError"
  by (simp add: example_defs run_defs upt_rec)


section \<open>Ranking\<close>















section \<open>Breeding\<close>

declare breed_loop.simps [simp del]

lemma breed_loop_result:
  "breed_loop ps n weights np rng = Ok (np', rng') \<Longrightarrow> length np \<le> n \<Longrightarrow>
   length np' = n \<and> take (length np) np' = np"
proof (induction ps n weights np rng rule: breed_loop.induct)
  case (1 ps n weights newpopulation rng)
  show ?case
  proof (cases "length newpopulation < n")
    case False
    with "1.prems" show ?thesis by (simp add: breed_loop.simps)
  next
    case True
    from "1.prems"(1) True obtain parent1 parent2 rng1 point1 point2 child1 child2 rng2 where
      sp: "select_parents n weights rng = Ok ((parent1, parent2), rng1)"
      and p1: "point_at ps parent1 = Ok point1" and p2: "point_at ps parent2 = Ok point2"
      and cr: "crossover point1 point2 rng1 = Ok ((child1, child2), rng2)"
      and rec: "breed_loop ps n weights
                  (if Suc (length newpopulation) < n then newpopulation @ [child1, child2]
                   else newpopulation @ [child1]) rng2 = Ok (np', rng')"
      by (subst (asm) breed_loop.simps) (auto split: result.splits)
    let ?next = "if Suc (length newpopulation) < n then newpopulation @ [child1, child2]
                   else newpopulation @ [child1]"
    have le: "length ?next \<le> n" using True by auto
    have ih: "length np' = n \<and> take (length ?next) np' = ?next"
      using "1.IH"[OF True sp refl refl p1 p2 cr refl refl rec le] .
    have "take (length newpopulation) (take (length ?next) np') = take (length newpopulation) ?next"
      using ih by simp
    moreover have "take (length newpopulation) ?next = newpopulation" by auto
    moreover have "length newpopulation \<le> length ?next" by auto
    ultimately have "take (length newpopulation) np' = newpopulation"
      by (simp add: min_def)
    with ih show ?thesis by simp
  qed
qed


lemma evaluate_fitness_evaluated_as:
  "evaluate_fitness p f = Ok p' \<Longrightarrow> evaluated_as f p p'"
  by (auto simp: evaluate_fitness_def evaluated_as_def rbind_Ok_iff)

lemma evaluate_points_evaluated_as:
  "evaluate_points f ps = Ok ps' \<Longrightarrow> list_all2 (evaluated_as f) ps ps'"
proof (induction ps arbitrary: ps')
  case Nil
  then show ?case by simp
next
  case (Cons p ps)
  from Cons.prems obtain p' rest' where "evaluate_fitness p f = Ok p'"
    "evaluate_points f ps = Ok rest'" "ps' = p' # rest'"
    by (auto simp: rbind_Ok_iff split: result.splits)
  then show ?case using Cons.IH evaluate_fitness_evaluated_as by simp
qed

lemma pool_map_calls:
  "pool_map f cs = Ok vs \<Longrightarrow> list_all2 (\<lambda>c v. call f c = Ok v) cs vs"
proof (induction cs arbitrary: vs)
  case Nil
  then show ?case by simp
next
  case (Cons c cs)
  from Cons.prems obtain v rest where "call f c = Ok v" "pool_map f cs = Ok rest" "vs = v # rest"
    by (auto simp: rbind_Ok_iff split: result.splits)
  then show ?case using Cons.IH by simp
qed

lemma evaluate_all_evaluated_as:
  assumes "evaluate_all pop ps = Ok ps'"
  shows "list_all2 (evaluated_as (objective_function pop)) ps ps' \<and>
         evaluated_coordinates pop ps = map coordinates ps"
proof (cases "multiprocessing pop")
  case False
  with assms show ?thesis
    by (simp add: evaluate_all_def evaluated_coordinates_def evaluate_points_evaluated_as)
next
  case True
  let ?cs = "take (size_pop pop) (map coordinates ps)"
  from assms True obtain vs where pm: "pool_map (objective_function pop) ?cs = Ok vs"
    and af: "assign_fitnesses ps vs = Ok ps'"
    by (auto simp: evaluate_all_def evaluated_coordinates_def rbind_Ok_iff)
  from pool_map_calls[OF pm] have l2: "list_all2 (\<lambda>c v. call (objective_function pop) c = Ok v) ?cs vs" .
  have lv: "length vs = length ?cs" using list_all2_lengthD[OF l2] by simp
  from af have le: "length ps \<le> length vs"
    and ps': "ps' = map (\<lambda>(point, v). point\<lparr>fitness := v\<rparr>) (zip ps vs)"
    by (auto simp: assign_fitnesses_def split: if_splits)
  from lv le have len: "length ps \<le> size_pop pop" "length vs = length ps" by auto
  then have cs: "?cs = map coordinates ps" by simp
  have "list_all2 (evaluated_as (objective_function pop)) ps ps'"
  proof (rule list_all2_all_nthI)
    show "length ps = length ps'" using ps' len by simp
    fix i assume i: "i < length ps"
    have "call (objective_function pop) (?cs ! i) = Ok (vs ! i)"
      using l2 i len cs by (simp add: list_all2_conv_all_nth)
    then show "evaluated_as (objective_function pop) (ps ! i) (ps' ! i)"
      using i len ps' cs by (simp add: evaluated_as_def)
  qed
  with cs True show ?thesis by (simp add: evaluated_coordinates_def)
qed

lemma evaluated_as_coordinates: "list_all2 (evaluated_as f) ps ps' \<Longrightarrow> map coordinates ps' = map coordinates ps"
proof (induction rule: list_all2_induct)
  case Nil
  then show ?case by simp
next
  case (Cons p ps p' ps')
  from Cons.hyps(1) have "p' = p\<lparr>fitness := fitness p'\<rparr>" by (simp add: evaluated_as_def)
  then have "coordinates p' = coordinates (p\<lparr>fitness := fitness p'\<rparr>)" by simp
  then show ?case using Cons.IH by simp
qed


lemma evaluated_as_same:
  assumes "list_all2 (evaluated_as f) ps ps'" "list_all (\<lambda>p. call f (coordinates p) = Ok (fitness p)) ps"
  shows "ps' = ps"
  using assms
proof (induction rule: list_all2_induct)
  case Nil
  then show ?case by simp
next
  case (Cons p ps p' ps')
  from Cons.hyps(1) Cons.prems have "fitness p' = fitness p" and "p' = p\<lparr>fitness := fitness p'\<rparr>"
    by (auto simp: evaluated_as_def)
  then have "p' = p" by simp
  with Cons show ?case by simp
qed

lemma weighted_choice_loop_index:
  "weighted_choice_loop choices ws i tot t = Ok (Some c) \<Longrightarrow> c \<in> set choices"
  by (induction ws arbitrary: i tot) (auto simp: list_get_def rbind_Ok_iff split: if_splits)

lemma weighted_choice_index:
  "weighted_choice choices ws rng = Ok (Some c, rng') \<Longrightarrow> c \<in> set choices"
  by (auto simp: weighted_choice_def weighted_choice_at_def rbind_Ok_iff
      dest: weighted_choice_loop_index)

lemma select_parents_distinct:
  "select_parents n weights rng = Ok ((p1, p2), rng') \<Longrightarrow>
   p1 \<noteq> p2 \<and> (\<forall>i. p1 = Some i \<longrightarrow> i < n) \<and> (\<forall>i. p2 = Some i \<longrightarrow> i < n)"
proof (induction n weights rng rule: select_parents.induct)
  case (1 n weights)
  then show ?case by simp
next
  case (2 n weights w1)
  then show ?case by (auto split: result.splits)
next
  case (3 n weights w1 w2 rng)
  from "3.prems" obtain a b where
    a: "weighted_choice [0..<n] weights [w1] = Ok (a, [])"
    and b: "weighted_choice [0..<n] weights [w2] = Ok (b, [])"
    by (auto simp: weighted_choice_def rbind_Ok_iff split: result.splits)
  show ?case
  proof (cases "a = b")
    case True
    with a b "3.prems" have "select_parents n weights rng = Ok ((p1, p2), rng')" by simp
    with "3.IH"[OF a refl b refl True] show ?thesis by simp
  next
    case False
    with a b "3.prems" have p: "p1 = a" "p2 = b" by auto
    have "\<forall>i. a = Some i \<longrightarrow> i < n" using weighted_choice_index[of "[0..<n]" weights "[w1]" _ "[]"] a by auto
    moreover have "\<forall>i. b = Some i \<longrightarrow> i < n" using weighted_choice_index[of "[0..<n]" weights "[w2]" _ "[]"] b by auto
    ultimately show ?thesis using False p by simp
  qed
qed

lemma breed_size_one_never_returns:
  assumes "size_pop pop = 1" "elite_population_size pop = 0"
  shows "breed pop rng \<noteq> Ok x"
proof
  assume "breed pop rng = Ok x"
  then obtain weights np rng' where
    bl: "breed_loop (sort_key fitness_rank (points pop)) 1 weights [] rng = Ok (np, rng')"
    using assms by (auto simp: breed_def Let_def rbind_Ok_iff elite_points_def)
  then obtain p1 p2 rng1 point1 point2 where
    sp: "select_parents 1 weights rng = Ok ((p1, p2), rng1)"
    and a: "point_at (sort_key fitness_rank (points pop)) p1 = Ok point1"
    and b: "point_at (sort_key fitness_rank (points pop)) p2 = Ok point2"
    by (subst (asm) breed_loop.simps) (auto split: result.splits)
  from select_parents_distinct[OF sp] have "p1 = None \<or> p2 = None"
    by (cases p1; cases p2) auto
  with a b show False by (auto simp: point_at_def)
qed


text \<open>
  Claim C3 (every call of \<^verbatim>\<open>breed_generation()\<close> produces exactly \<open>N\<close> candidates and the
  elite appear unchanged, with no re-evaluation of their fitness): the code evaluates
  every member of the new generation, the elite included. In the example population
  the elite member has the coordinates \<open>[75, 25]\<close>; the objective had been called on
  \<open>[25, 50]\<close> and \<open>[75, 25]\<close> before, and during the call of \<^verbatim>\<open>__breed\<close> it is called on
  \<open>[75, 25]\<close> again and on the child \<open>[75, 50]\<close>. Nor does every call return: a population
  of size 1 without elite never leaves the selection of two different parents
  (\<open>breed_size_one_never_returns\<close>), and a parent \<open>None\<close> raises.
\<close>

theorem breed_reevaluates_elite:
  "evaluations example_population = [[25, 50], [75, 25]] \<and>
   map coordinates (take (elite_population_size example_population)
     (sort_key fitness_rank (points example_population))) = [[75, 25]] \<and>
   breed example_population [w12, w18, w12, w12, w12, w12, 0] =
     Ok (example_population\<lparr>points := [example_member [75, 25] 1 100 (75 / 2) 0 0,
                                          example_member [75, 50] (- 1) 125 0 (- 1) (- 1)],
           evaluations := [[25, 50], [75, 25], [75, 25], [75, 50]],
           evaluated_fitness_ranks := False, evaluated_diversity_ranks := False\<rparr>, [])"
  by (simp add: example_defs run_defs upt_rec breed_loop.simps)

text \<open>
  Claim C3 as amended: for a population of size \<open>N\<close> whose elite count is at most \<open>N\<close>,
  every call of \<^verbatim>\<open>breed_generation()\<close> that returns produces exactly \<open>N\<close> candidates; the
  first \<open>elite_count\<close> of them are the candidates of best prior fitness rank, each
  evaluated again by the objective at its unchanged coordinates and otherwise
  unchanged; the objective has been called once on every member of the new generation;
  and when the prior fitness of every member was the value of the objective at its
  coordinates, the elite are the same as before.
\<close>

theorem breed_generation:
  assumes "breed pop rng = Ok (pop', rng')" and "elite_population_size pop \<le> size_pop pop"
  shows "length (points pop') = size_pop pop \<and> size_pop pop' = size_pop pop \<and>
     list_all2 (evaluated_as (objective_function pop))
       (take (elite_population_size pop) (sort_key fitness_rank (points pop)))
       (take (elite_population_size pop) (points pop')) \<and>
     evaluations pop' = evaluations pop @ map coordinates (points pop') \<and>
     (list_all (\<lambda>p. call (objective_function pop) (coordinates p) = Ok (fitness p)) (points pop) \<longrightarrow>
        take (elite_population_size pop) (points pop') =
        take (elite_population_size pop) (sort_key fitness_rank (points pop)))"
proof -
  let ?s = "sort_key fitness_rank (points pop)"
  let ?e = "elite_population_size pop"
  from assms(1) obtain elite weights np ev where
    el: "elite_points ?s ?e = Ok elite"
    and bl: "breed_loop ?s (size_pop pop) weights elite rng = Ok (np, rng')"
    and ea: "evaluate_all pop np = Ok ev"
    and pop': "pop' = pop\<lparr>points := ev,
                 evaluations := evaluations pop @ evaluated_coordinates pop np,
                 evaluated_fitness_ranks := False, evaluated_diversity_ranks := False\<rparr>"
    by (auto simp: breed_def Let_def rbind_Ok_iff)
  from el have elite: "elite = take ?e ?s" and le: "length elite = ?e"
    by (auto simp: elite_points_def split: if_splits)
  from breed_loop_result[OF bl] le assms(2) have np: "length np = size_pop pop" "take ?e np = elite"
    by auto
  from evaluate_all_evaluated_as[OF ea] have
    l2: "list_all2 (evaluated_as (objective_function pop)) np ev"
    and ec: "evaluated_coordinates pop np = map coordinates np" by auto
  have len: "length ev = size_pop pop" using list_all2_lengthD[OF l2] np by simp
  have t: "list_all2 (evaluated_as (objective_function pop)) (take ?e ?s) (take ?e ev)"
    using list_all2_takeI[OF l2, of ?e] np elite by simp
  have c: "map coordinates ev = map coordinates np" using evaluated_as_coordinates[OF l2] .
  have "take ?e ev = take ?e ?s"
    if "list_all (\<lambda>p. call (objective_function pop) (coordinates p) = Ok (fitness p)) (points pop)"
  proof (rule evaluated_as_same[OF t])
    have "set (take ?e ?s) \<subseteq> set (points pop)"
      using set_take_subset[of ?e ?s] by simp
    with that show "list_all (\<lambda>p. call (objective_function pop) (coordinates p) = Ok (fitness p)) (take ?e ?s)"
      by (auto simp: list_all_iff)
  qed
  with len t c ec show ?thesis unfolding pop' by simp
qed

theorem breed_generation_witness:
  "breed example_population [w12, w18, w12, w12, w12, w12, 0] =
     Ok (example_population\<lparr>points := [example_member [75, 25] 1 100 (75 / 2) 0 0,
                                          example_member [75, 50] (- 1) 125 0 (- 1) (- 1)],
           evaluations := [[25, 50], [75, 25], [75, 25], [75, 50]],
           evaluated_fitness_ranks := False, evaluated_diversity_ranks := False\<rparr>, []) \<and>
   elite_population_size example_population \<le> size_pop example_population \<and>
   length [example_member [75, 25] 1 100 (75 / 2) 0 0,
           example_member [75, 50] (- 1) 125 0 (- 1) (- 1)] = size_pop example_population \<and>
   list_all (\<lambda>p. call (objective_function example_population) (coordinates p) = Ok (fitness p))
     (points example_population) \<and>
   take (elite_population_size example_population)
     [example_member [75, 25] 1 100 (75 / 2) 0 0, example_member [75, 50] (- 1) 125 0 (- 1) (- 1)] =
   take (elite_population_size example_population)
     (sort_key fitness_rank (points example_population))"
proof -
  have a: "breed example_population [w12, w18, w12, w12, w12, w12, 0] =
     Ok (example_population\<lparr>points := [example_member [75, 25] 1 100 (75 / 2) 0 0,
                                          example_member [75, 50] (- 1) 125 0 (- 1) (- 1)],
           evaluations := [[25, 50], [75, 25], [75, 25], [75, 50]],
           evaluated_fitness_ranks := False, evaluated_diversity_ranks := False\<rparr>, [])"
    by (simp add: example_defs run_defs upt_rec breed_loop.simps)
  have b: "elite_population_size example_population \<le> size_pop example_population"
    by (simp add: example_defs)
  have c: "list_all (\<lambda>p. call (objective_function example_population) (coordinates p) = Ok (fitness p))
     (points example_population)"
    by (simp add: example_defs)
  from breed_generation[OF a b] a b c show ?thesis by simp
qed


section \<open>Minimize\<close>

text \<open>
  The example population is the one that the constructor builds for the example
  objective, two points, the default boundaries and an elite fraction of one half.
\<close>

lemma Population_init_example:
  "Population_init example_objective None 2 None (1 / 2) (1 / 20) 5 0 False 0 [w14, w12, w34, w14]
     = Ok (example_population, [])"
  by (simp add: Population_init_def populate_def empty_population_def
      evaluate_fitness_ranks_def assign_fitness_ranks_def
      evaluate_diversity_ranks_def assign_diversity_ranks_def broadcast_def
      example_defs run_defs numeral_2_eq_2 enumerate_eq_zip upt_rec)

text \<open>
  Claim C7: for every deterministic objective \<open>f\<close>, the candidate that
  \<^verbatim>\<open>minimize(f, ...)\<close> returns has as its fitness the value of \<open>f\<close> at its coordinates:
  it is the best estimate of the maximization of the negated objective, evaluated once
  more by \<open>f\<close> itself.
\<close>

theorem minimize_reports_objective:
  assumes "minimize f dimensions population_size bounds elite_fraction mutation_prob
             mutation_rng verbosity multiproc iterations pid rng = Ok p"
  shows "call f (coordinates p) = Ok (fitness p) \<and>
         (\<exists>best. maximize (objective_function_neg f) dimensions population_size bounds
                    elite_fraction mutation_prob mutation_rng verbosity multiproc iterations
                    pid rng = Ok (Some best) \<and> evaluated_as f best p)"
proof -
  from assms obtain best where
    m: "maximize (objective_function_neg f) dimensions population_size bounds
          elite_fraction mutation_prob mutation_rng verbosity multiproc iterations
          pid rng = Ok (Some best)"
    and e: "evaluate_fitness best f = Ok p"
    by (auto simp: minimize_def rbind_Ok_iff split: option.splits)
  from evaluate_fitness_evaluated_as[OF e] have ea: "evaluated_as f best p" .
  then have "coordinates p = coordinates (best\<lparr>fitness := fitness p\<rparr>)"
    by (simp add: evaluated_as_def)
  then have "coordinates p = coordinates best" by simp
  with ea m show ?thesis by (auto simp: evaluated_as_def)
qed

text \<open>
  A run of one generation over two points: the elite \<open>[25, 50]\<close> and the child
  \<open>[25, 25]\<close> of the crossover, which is the best estimate; its reported fitness is
  \<open>25 + 25\<close>, not the \<open>- 50\<close> of the maximization.
\<close>

theorem minimize_reports_objective_witness:
  "minimize example_objective (Some 2) 2 None (1 / 2) (1 / 20) 5 0 False (Suc 0) 0
     [w14, w12, w34, w14, w12, w18, w12, w12, w12, w12, 0, w12, w12] =
     Ok (example_member [25, 25] (- 1) 50 (25 / 2) 0 0) \<and>
   call example_objective (coordinates (example_member [25, 25] (- 1) 50 (25 / 2) 0 0)) =
     Ok (fitness (example_member [25, 25] (- 1) 50 (25 / 2) 0 0))"
proof -
  have a: "minimize example_objective (Some 2) 2 None (1 / 2) (1 / 20) 5 0 False (Suc 0) 0
     [w14, w12, w34, w14, w12, w18, w12, w12, w12, w12, 0, w12, w12] =
     Ok (example_member [25, 25] (- 1) 50 (25 / 2) 0 0)"
    by (simp add: minimize_def maximize_def objective_function_neg_def Population_init_def
        populate_def empty_population_def iterate_def Population_mutate_def evaluate_fitness_ranks_def assign_fitness_ranks_def
        evaluate_diversity_ranks_def assign_diversity_ranks_def broadcast_def best_estimate_def
        example_defs run_defs upt_rec breed_loop.simps enumerate_eq_zip numeral_2_eq_2
        mutate_def mutate_draws_def)
  from minimize_reports_objective[OF a] a show ?thesis by simp
qed


section \<open>Calls that return\<close>

text \<open>
  The constructor of a point, \<^verbatim>\<open>mutate\<close> and \<^verbatim>\<open>crossover\<close> return whenever the
  boundaries cover the dimensions (and there is a dimension to choose), consuming one
  word per draw.
\<close>

lemma draw_coordinates_returns:
  "d + n \<le> length bs \<Longrightarrow> n \<le> length rng \<Longrightarrow>
   \<exists>cs. draw_coordinates bs d n rng = Ok (cs, drop n rng)"
proof (induction n arbitrary: d rng)
  case 0
  then show ?case by simp
next
  case (Suc n)
  then obtain w rng1 where r: "rng = w # rng1" by (cases rng) auto
  with Suc.prems have "Suc d + n \<le> length bs" "n \<le> length rng1" by auto
  from Suc.IH[OF this] obtain cs where "draw_coordinates bs (Suc d) n rng1 = Ok (cs, drop n rng1)"
    by blast
  with r Suc.prems show ?case by (simp add: list_get_def)
qed

lemma Point_init_returns:
  assumes "case population of None \<Rightarrow> True | Some (pid, pbs, pmr) \<Rightarrow> n \<le> length pbs"
    and "n \<le> length rng"
  shows "\<exists>p. Point_init population n rng = Ok (p, drop n rng)"
proof (cases population)
  case None
  from draw_coordinates_returns[of 0 n "replicate n (0, 100)" rng] assms(2)
  obtain cs where "draw_coordinates (replicate n (0, 100)) 0 n rng = Ok (cs, drop n rng)" by auto
  with None show ?thesis by (simp add: Point_init_def)
next
  case (Some t)
  obtain pid pbs pmr where t: "t = (pid, pbs, pmr)" by (cases t) auto
  from draw_coordinates_returns[of 0 n pbs rng] assms Some t
  obtain cs where "draw_coordinates pbs 0 n rng = Ok (cs, drop n rng)" by auto
  with Some t show ?thesis by (simp add: Point_init_def)
qed

lemma mutate_returns:
  assumes "coordinates p \<noteq> []" "length (coordinates p) \<le> length (boundaries p)" "2 \<le> length rng"
  shows "\<exists>p'. mutate p rng = Ok (p', drop 2 rng)"
proof -
  obtain w1 w2 rng2 where r: "rng = w1 # w2 # rng2"
    using assms(3) by (cases rng; cases "tl rng") auto
  have "w1 mod length (coordinates p) < length (coordinates p)" using assms(1) by simp
  then have "w1 mod length (coordinates p) < length (boundaries p)" using assms(2) by simp
  then show ?thesis using assms(1) r
    by (simp add: mutate_def mutate_draws_def list_get_def)
qed

lemma crossover_returns:
  assumes "associated_population point1 = associated_population point2"
    and "coordinates point1 \<noteq> []"
    and "length (coordinates point1) \<le> length (boundaries point1)"
    and "length (coordinates point2) \<le> length (boundaries point2)"
    and "length (coordinates point1) + length (coordinates point2) < length rng"
  shows "\<exists>children. crossover point1 point2 rng =
           Ok (children, drop (length (coordinates point1) + length (coordinates point2) + 1) rng)"
proof -
  let ?n1 = "length (coordinates point1)" and ?n2 = "length (coordinates point2)"
  have "\<exists>c1. Point_init (population_of point1) ?n1 rng = Ok (c1, drop ?n1 rng)"
    using assms(3,5) by (intro Point_init_returns) (auto simp: population_of_def split: option.splits)
  then obtain c1 where c1: "Point_init (population_of point1) ?n1 rng = Ok (c1, drop ?n1 rng)" by blast
  have "\<exists>c2. Point_init (population_of point2) ?n2 (drop ?n1 rng) = Ok (c2, drop ?n2 (drop ?n1 rng))"
    using assms(4,5) by (intro Point_init_returns) (auto simp: population_of_def split: option.splits)
  then obtain c2 where c2: "Point_init (population_of point2) ?n2 (drop ?n1 rng) = Ok (c2, drop ?n2 (drop ?n1 rng))" by blast
  obtain w rest where d: "drop (?n1 + ?n2) rng = w # rest"
    using assms(5) by (cases "drop (?n1 + ?n2) rng") auto
  then have rest: "rest = drop (?n1 + ?n2 + 1) rng"
    by (metis drop_Suc drop_drop list.sel(3) tl_drop add.commute plus_1_eq_Suc)
  have d': "drop ?n2 (drop ?n1 rng) = w # rest" using d by (simp add: add.commute)
  show ?thesis using assms(1,2) c1 c2 d' rest
    by (simp add: crossover_def crossover_children_def crossover_splitpoint_def)
qed


section \<open>The constructor builds a well-formed population\<close>

lemma create_points_shape:
  "create_points population d k n rng = Ok (ps, rng') \<Longrightarrow>
   length ps = n \<and> list_all (\<lambda>p. length (coordinates p) = d) ps"
proof (induction n arbitrary: k rng ps)
  case 0
  then show ?case by simp
next
  case (Suc n)
  from Suc.prems obtain point rng1 rest where
    pi: "Point_init (Some population) d rng = Ok (point, rng1)"
    and cp: "create_points population d (Suc k) n rng1 = Ok (rest, rng')"
    and ps: "ps = point\<lparr>index := int k\<rparr> # rest"
    by (auto simp: rbind_Ok_iff split: result.splits)
  from Point_init_length[OF pi] Suc.IH[OF cp] ps show ?case by simp
qed

lemma evaluate_all_shape:
  assumes "evaluate_all pop ps = Ok ps'"
  shows "length ps' = length ps \<and> map coordinates ps' = map coordinates ps"
proof -
  from evaluate_all_evaluated_as[OF assms]
  have l: "list_all2 (evaluated_as (objective_function pop)) ps ps'" by simp
  from list_all2_lengthD[OF l] evaluated_as_coordinates[OF l] show ?thesis by simp
qed

lemma list_all_coordinates:
  assumes "list_all (\<lambda>p. length (coordinates p) = nd) ps" "set (map coordinates ps') \<subseteq> set (map coordinates ps)"
  shows "list_all (\<lambda>p. length (coordinates p) = nd) ps'"
  using assms by (fastforce simp: list_all_iff)

lemma assign_fitness_ranks_shape:
  assumes "assign_fitness_ranks n ps = Ok ps'"
  shows "length ps' = length ps \<and> map coordinates ps' = map coordinates ps"
proof -
  from assms have ps': "ps' = map (\<lambda>(r, p). p\<lparr>fitness_rank := int r\<rparr>) (enumerate 0 (take n ps)) @ drop n ps"
    by (auto simp: assign_fitness_ranks_def split: if_splits)
  have "map coordinates (map (\<lambda>(r, p). p\<lparr>fitness_rank := int r\<rparr>) (enumerate 0 xs)) = map coordinates xs" for xs :: "Point list"
    by (intro nth_equalityI) (simp_all add: nth_enumerate_eq)
  then have "map coordinates ps' = map coordinates (take n ps) @ map coordinates (drop n ps)"
    using ps' by simp
  then have "map coordinates ps' = map coordinates ps" by (simp flip: map_append)
  moreover have "length ps' = length ps" using ps' by simp
  ultimately show ?thesis by simp
qed

lemma assign_diversity_ranks_shape:
  assumes "assign_diversity_ranks n ps = Ok ps'"
  shows "length ps' = length ps \<and> map coordinates ps' = map coordinates ps"
proof -
  from assms have ps': "ps' = map (\<lambda>(r, p). p\<lparr>diversity_rank := int r\<rparr>) (enumerate 0 (take n ps)) @ drop n ps"
    by (auto simp: assign_diversity_ranks_def split: if_splits)
  have "map coordinates (map (\<lambda>(r, p). p\<lparr>diversity_rank := int r\<rparr>) (enumerate 0 xs)) = map coordinates xs" for xs :: "Point list"
    by (intro nth_equalityI) (simp_all add: nth_enumerate_eq)
  then have "map coordinates ps' = map coordinates (take n ps) @ map coordinates (drop n ps)"
    using ps' by simp
  then have "map coordinates ps' = map coordinates ps" by (simp flip: map_append)
  moreover have "length ps' = length ps" using ps' by simp
  ultimately show ?thesis by simp
qed

lemma set_diversities_shape:
  "set_diversities mc ps = Ok ps' \<Longrightarrow> length ps' = length ps \<and> map coordinates ps' = map coordinates ps"
  by (induction ps arbitrary: ps') (auto simp: rbind_Ok_iff split: result.splits)

lemma evaluate_fitness_ranks_well_formed:
  assumes "evaluate_fitness_ranks pop = Ok pop'" "well_formed pop"
  shows "well_formed pop' \<and> size_pop pop' = size_pop pop"
proof (cases "evaluated_fitness_ranks pop")
  case True
  with assms show ?thesis by (simp add: evaluate_fitness_ranks_def)
next
  case False
  let ?s = "sort_key (\<lambda>point. - fitness point) (points pop)"
  from assms(1) False obtain ranked where
    ar: "assign_fitness_ranks (size_pop pop) ?s = Ok ranked"
    and pop': "pop' = pop\<lparr>points := ranked,
                   mean_fitness := sum_list (map fitness (points pop)) / real (size_pop pop),
                   evaluated_fitness_ranks := True\<rparr>"
    by (auto simp: evaluate_fitness_ranks_def rbind_Ok_iff split: if_splits)
  from assign_fitness_ranks_shape[OF ar] have l: "length ranked = length (points pop)"
    and c: "map coordinates ranked = map coordinates ?s" by auto
  have "set (map coordinates ranked) \<subseteq> set (map coordinates (points pop))"
    unfolding c by simp
  with assms(2) l show ?thesis
    unfolding well_formed_def pop' using list_all_coordinates by auto
qed

lemma evaluate_diversity_ranks_well_formed:
  assumes "evaluate_diversity_ranks pop = Ok pop'" "well_formed pop"
  shows "well_formed pop' \<and> size_pop pop' = size_pop pop"
proof (cases "evaluated_diversity_ranks pop")
  case True
  with assms show ?thesis by (simp add: evaluate_diversity_ranks_def)
next
  case False
  from assms(1) False obtain mc ps ranked md where
    sd: "set_diversities mc (points pop) = Ok ps"
    and ar: "assign_diversity_ranks (size_pop pop) (sort_key (\<lambda>point. - diversity point) ps) = Ok ranked"
    and pop': "pop' = pop\<lparr>points := ranked, mean_coordinates := mc, mean_diversity := md,
                   evaluated_diversity_ranks := True\<rparr>"
    by (auto simp: evaluate_diversity_ranks_def rbind_Ok_iff Let_def split: if_splits)
  from set_diversities_shape[OF sd] have l1: "length ps = length (points pop)"
    and c1: "map coordinates ps = map coordinates (points pop)" by auto
  from assign_diversity_ranks_shape[OF ar] have l: "length ranked = length ps"
    and c: "map coordinates ranked = map coordinates (sort_key (\<lambda>point. - diversity point) ps)" by auto
  have "set (map coordinates ranked) = set (map coordinates ps)" unfolding c by simp
  then have "set (map coordinates ranked) \<subseteq> set (map coordinates (points pop))"
    using c1 by simp
  with assms(2) l l1 show ?thesis
    unfolding well_formed_def pop' using list_all_coordinates by auto
qed

lemma populate_well_formed:
  assumes "populate pop0 rng = Ok (pop, rng')" "elite_population_size pop0 \<le> size_pop pop0"
    "\<not> evaluated_fitness_ranks pop0"
  shows "well_formed pop \<and> size_pop pop = size_pop pop0"
proof -
  from assms(1) obtain ps rng1 evaluated pop1 where
    cp: "create_points (ident pop0, boundaries_pop pop0, mutation_range_pop pop0)
           (num_dimensions pop0) 0 (size_pop pop0) rng = Ok (ps, rng1)"
    and ea: "evaluate_all pop0 ps = Ok evaluated"
    and fr: "evaluate_fitness_ranks (pop0\<lparr>points := evaluated,
               evaluations := evaluated_coordinates pop0 ps\<rparr>) = Ok pop1"
    and dr: "evaluate_diversity_ranks pop1 = Ok pop"
    by (auto simp: populate_def rbind_Ok_iff)
  let ?p = "pop0\<lparr>points := evaluated, evaluations := evaluated_coordinates pop0 ps\<rparr>"
  from create_points_shape[OF cp] have ps: "length ps = size_pop pop0"
    "list_all (\<lambda>p. length (coordinates p) = num_dimensions pop0) ps" by auto
  from evaluate_all_shape[OF ea] have ev: "length evaluated = length ps"
    "map coordinates evaluated = map coordinates ps" by auto
  have "set (map coordinates evaluated) \<subseteq> set (map coordinates ps)"
    unfolding ev(2) by (rule subset_refl)
  then have dims: "list_all (\<lambda>p. length (coordinates p) = num_dimensions pop0) evaluated"
    by (rule list_all_coordinates[OF ps(2)])
  have pos: "0 < size_pop pop0"
  proof (rule ccontr)
    assume "\<not> 0 < size_pop pop0"
    then have "evaluate_fitness_ranks ?p = Raises ZeroDivisionError"
      using assms(3) by (simp add: evaluate_fitness_ranks_def)
    with fr show False by simp
  qed
  have wf0: "well_formed ?p" using ps ev dims pos assms(2) by (simp add: well_formed_def)
  from evaluate_fitness_ranks_well_formed[OF fr wf0]
  have wf1: "well_formed pop1" "size_pop pop1 = size_pop pop0" by auto
  from evaluate_diversity_ranks_well_formed[OF dr wf1(1)] wf1(2) show ?thesis by simp
qed

lemma Population_init_well_formed:
  assumes "Population_init f dimensions population_size bounds elite_fraction mutation_prob
             mutation_rng verbosity multiproc pid rng = Ok (pop, rng')"
  shows "well_formed pop \<and> size_pop pop = population_size"
proof -
  from assms have ef: "0 \<le> elite_fraction" "elite_fraction \<le> 1"
    by (auto simp: Population_init_def split: if_splits)
  from assms obtain nd bs where
    p: "populate (empty_population f nd population_size bs elite_fraction mutation_prob
                    mutation_rng verbosity multiproc pid) rng = Ok (pop, rng')"
    by (auto simp: Population_init_def rbind_Ok_iff split: if_splits)
  have "elite_fraction * real population_size \<le> real population_size"
    using ef by (simp add: mult_left_le_one_le)
  then have "\<lfloor>elite_fraction * real population_size\<rfloor> \<le> int population_size" by linarith
  then have el: "nat \<lfloor>elite_fraction * real population_size\<rfloor> \<le> population_size" by linarith
  from populate_well_formed[OF p] el show ?thesis by (simp add: empty_population_def)
qed


section \<open>Generations keep the population well-formed\<close>

text \<open>
  So the hypotheses of the theorems on breeding and ranking hold for the population
  that the constructor returns and for every population that \<^verbatim>\<open>converge\<close> reaches
  from it.
\<close>

lemma crossover_lengths:
  assumes "crossover point1 point2 rng = Ok ((child1, child2), rng')"
    and "length (coordinates point1) = nd" "length (coordinates point2) = nd"
  shows "length (coordinates child1) = nd \<and> length (coordinates child2) = nd"
proof -
  from assms(1) obtain c1 c2 rng2 k where
    sp: "crossover_splitpoint point1 rng2 = Ok (k, rng')"
    and c1: "child1 = c1\<lparr>coordinates :=
               take k (coordinates point1) @ drop k (coordinates point2)\<rparr>"
    and c2: "child2 = c2\<lparr>coordinates :=
               take k (coordinates point2) @ drop k (coordinates point1)\<rparr>"
    by (auto simp: crossover_def rbind_Ok_iff split: if_splits)
  from crossover_splitpoint_bounds[OF sp] have "k \<le> length (coordinates point1)" by simp
  with c1 c2 assms(2,3) show ?thesis by auto
qed

lemma point_at_member: "point_at ps parent = Ok p \<Longrightarrow> p \<in> set ps"
  by (auto simp: point_at_def list_get_def split: option.splits if_splits)

lemma breed_loop_dimensions:
  "breed_loop ps n weights np rng = Ok (np', rng') \<Longrightarrow>
   list_all (\<lambda>p. length (coordinates p) = nd) ps \<Longrightarrow>
   list_all (\<lambda>p. length (coordinates p) = nd) np \<Longrightarrow>
   list_all (\<lambda>p. length (coordinates p) = nd) np'"
proof (induction ps n weights np rng rule: breed_loop.induct)
  case (1 ps n weights newpopulation rng)
  show ?case
  proof (cases "length newpopulation < n")
    case False
    with "1.prems" show ?thesis by (simp add: breed_loop.simps)
  next
    case True
    from "1.prems"(1) True obtain parent1 parent2 rng1 point1 point2 child1 child2 rng2 where
      sp: "select_parents n weights rng = Ok ((parent1, parent2), rng1)"
      and p1: "point_at ps parent1 = Ok point1" and p2: "point_at ps parent2 = Ok point2"
      and cr: "crossover point1 point2 rng1 = Ok ((child1, child2), rng2)"
      and rec: "breed_loop ps n weights
                  (if Suc (length newpopulation) < n then newpopulation @ [child1, child2]
                   else newpopulation @ [child1]) rng2 = Ok (np', rng')"
      by (subst (asm) breed_loop.simps) (auto split: result.splits)
    have "length (coordinates point1) = nd" "length (coordinates point2) = nd"
      using point_at_member[OF p1] point_at_member[OF p2] "1.prems"(2) by (auto simp: list_all_iff)
    from crossover_lengths[OF cr this]
    have "list_all (\<lambda>p. length (coordinates p) = nd)
            (if Suc (length newpopulation) < n then newpopulation @ [child1, child2]
             else newpopulation @ [child1])"
      using "1.prems"(3) by simp
    from "1.IH"[OF True sp refl refl p1 p2 cr refl refl rec "1.prems"(2) this] show ?thesis .
  qed
qed

lemma breed_well_formed:
  assumes "breed pop rng = Ok (pop', rng')" "well_formed pop"
  shows "well_formed pop' \<and> size_pop pop' = size_pop pop"
proof -
  let ?s = "sort_key fitness_rank (points pop)"
  let ?e = "elite_population_size pop"
  let ?D = "\<lambda>p. length (coordinates p) = num_dimensions pop"
  from assms(1) obtain elite weights np ev where
    el: "elite_points ?s ?e = Ok elite"
    and bl: "breed_loop ?s (size_pop pop) weights elite rng = Ok (np, rng')"
    and ea: "evaluate_all pop np = Ok ev"
    and pop': "pop' = pop\<lparr>points := ev,
                 evaluations := evaluations pop @ evaluated_coordinates pop np,
                 evaluated_fitness_ranks := False, evaluated_diversity_ranks := False\<rparr>"
    by (auto simp: breed_def Let_def rbind_Ok_iff)
  from assms(2) have wf: "length (points pop) = size_pop pop" "0 < size_pop pop"
    "?e \<le> size_pop pop" "list_all ?D (points pop)" by (auto simp: well_formed_def)
  from el have elite: "elite = take ?e ?s" and le: "length elite = ?e"
    by (auto simp: elite_points_def split: if_splits)
  have ds: "list_all ?D ?s" using wf(4) by (simp add: list_all_iff)
  have de: "list_all ?D elite" using ds elite set_take_subset[of ?e ?s] by (auto simp: list_all_iff)
  from breed_loop_result[OF bl] le wf(3) have np: "length np = size_pop pop" by auto
  from breed_loop_dimensions[OF bl ds de] have dn: "list_all ?D np" .
  from evaluate_all_shape[OF ea] have ev: "length ev = length np"
    "map coordinates ev = map coordinates np" by auto
  have "set (map coordinates ev) \<subseteq> set (map coordinates np)"
    unfolding ev(2) by (rule subset_refl)
  then have "list_all ?D ev" by (rule list_all_coordinates[OF dn])
  with ev np wf show ?thesis unfolding pop' by (simp add: well_formed_def)
qed

lemma mutate_length:
  assumes "mutate p rng = Ok (p', rng')"
  shows "length (coordinates p') = length (coordinates p)"
  using mutate_result[OF assms] by (metis Point.select_convs(4) Point.surjective Point.update_convs(4) length_list_update)

lemma evaluate_fitness_coordinates:
  "evaluate_fitness p f = Ok p' \<Longrightarrow> coordinates p' = coordinates p"
  by (auto simp: evaluate_fitness_def rbind_Ok_iff)

lemma mutate_points_shape:
  "mutate_points f mp ps rng = Ok (ps', evs, rng') \<Longrightarrow>
   list_all (\<lambda>p. length (coordinates p) = nd) ps \<Longrightarrow>
   length ps' = length ps \<and> list_all (\<lambda>p. length (coordinates p) = nd) ps'"
proof (induction ps arbitrary: rng ps' evs)
  case Nil
  then show ?case by simp
next
  case (Cons p ps)
  from Cons.prems(1) obtain u rng1 where u: "uniform 0 1 rng = Ok (u, rng1)"
    by (auto split: result.splits)
  show ?case
  proof (cases "u < mp")
    case True
    with Cons.prems(1) u obtain m rng2 p' rest evs' where
      m: "mutate p rng1 = Ok (m, rng2)" and e: "evaluate_fitness m f = Ok p'"
      and r: "mutate_points f mp ps rng2 = Ok (rest, evs', rng')" and ps': "ps' = p' # rest"
      by (auto simp: rbind_Ok_iff split: result.splits)
    from mutate_length[OF m] evaluate_fitness_coordinates[OF e] Cons.prems(2)
    have "length (coordinates p') = nd" by simp
    with Cons.IH[OF r] Cons.prems(2) ps' show ?thesis by simp
  next
    case False
    with Cons.prems(1) u obtain rest evs' where
      r: "mutate_points f mp ps rng1 = Ok (rest, evs', rng')" and ps': "ps' = p # rest"
      by (auto simp: rbind_Ok_iff split: result.splits)
    with Cons.IH[OF r] Cons.prems(2) show ?thesis by simp
  qed
qed

lemma Population_mutate_well_formed:
  assumes "Population_mutate pop rng = Ok (pop', rng')" "well_formed pop"
  shows "well_formed pop' \<and> size_pop pop' = size_pop pop"
proof -
  from assms(1) obtain ps evs where
    mp: "mutate_points (objective_function pop) (mutation_probability pop) (points pop) rng
           = Ok (ps, evs, rng')"
    and pop': "pop' = (if evs = [] then pop\<lparr>points := ps\<rparr>
              else pop\<lparr>points := ps, evaluations := evaluations pop @ evs,
                      evaluated_fitness_ranks := False, evaluated_diversity_ranks := False\<rparr>)"
    by (auto simp: Population_mutate_def rbind_Ok_iff)
  from assms(2) have d: "list_all (\<lambda>p. length (coordinates p) = num_dimensions pop) (points pop)"
    by (simp add: well_formed_def)
  from mutate_points_shape[OF mp d] assms(2) show ?thesis
    unfolding pop' by (simp add: well_formed_def)
qed

lemma iterate_well_formed:
  assumes "iterate pop rng = Ok (pop', rng')" "well_formed pop"
  shows "well_formed pop' \<and> size_pop pop' = size_pop pop"
proof -
  from assms(1) obtain pop1 rng1 pop2 pop3 pop4 where
    b: "breed pop rng = Ok (pop1, rng1)"
    and m: "Population_mutate pop1 rng1 = Ok (pop2, rng')"
    and f: "evaluate_fitness_ranks pop2 = Ok pop3"
    and d: "evaluate_diversity_ranks pop3 = Ok pop4"
    and pop': "pop' = pop4\<lparr>num_iterations := num_iterations pop4 + 1\<rparr>"
    by (auto simp: iterate_def rbind_Ok_iff)
  from breed_well_formed[OF b assms(2)] have 1: "well_formed pop1" "size_pop pop1 = size_pop pop" by auto
  from Population_mutate_well_formed[OF m 1(1)] 1 have 2: "well_formed pop2" "size_pop pop2 = size_pop pop" by auto
  from evaluate_fitness_ranks_well_formed[OF f 2(1)] 2 have 3: "well_formed pop3" "size_pop pop3 = size_pop pop" by auto
  from evaluate_diversity_ranks_well_formed[OF d 3(1)] 3 have 4: "well_formed pop4" "size_pop pop4 = size_pop pop" by auto
  then show ?thesis unfolding pop' by (simp add: well_formed_def)
qed

lemma converge_well_formed:
  "converge pop iterations rng = Ok (pop', rng') \<Longrightarrow> well_formed pop \<Longrightarrow>
   well_formed pop' \<and> size_pop pop' = size_pop pop"
proof (induction iterations arbitrary: pop rng)
  case 0
  then show ?case by simp
next
  case (Suc n)
  from Suc.prems(1) obtain pop1 rng1 where i: "iterate pop rng = Ok (pop1, rng1)"
    and c: "converge pop1 n rng1 = Ok (pop', rng')"
    by (auto split: result.splits)
  from iterate_well_formed[OF i Suc.prems(2)] Suc.IH[OF c] show ?case by simp
qed

end
